theory Spec2Isabelle
  imports Main "HOL-Library.Word"
begin

section \<open>Strings and numbers of the host language\<close>

text \<open>
  The portal is TypeScript running in a browser. A string is modelled as the list of its
  bytes in UTF-8 (\<open>string\<close>); the characters the code tests for (space, slash) and every
  literal it writes are ASCII, where a byte and a UTF-16 code unit coincide. Header values
  are byte strings by the Fetch standard.

  Numbers that the code prints: an array index and an HTTP status code are natural
  numbers, which the template literal \<open>`${n}`\<close> prints in decimal. A wavelength is any
  JavaScript number (a double). \<open>Whole negative m\<close> is the integer of magnitude \<open>m\<close>
  below \<open>2^53\<close>, with its sign; the template literal prints its decimal digits, with a
  leading minus sign when it is negative and not zero. Every other number (a fraction,
  \<open>NaN\<close>, an infinity, a magnitude from \<open>2^53\<close> on) is \<open>Other s\<close>, given by the text
  \<open>s\<close> that the template literal prints for it: the rounding and the exponent form of
  doubles are the language's and are not computed here.
\<close>

datatype js_double = Whole bool "53 word" | Other string

definition digit_char :: "nat \<Rightarrow> char" where
  "digit_char d = ''0123456789'' ! d"

fun nat_toString :: "nat \<Rightarrow> string" where
  "nat_toString n =
     (if n < 10 then [digit_char n] else nat_toString (n div 10) @ [digit_char (n mod 10)])"

declare nat_toString.simps [simp del]

fun Number_toString :: "js_double \<Rightarrow> string" where
  "Number_toString (Whole negative m) =
     (if negative \<and> m \<noteq> 0 then CHR ''-'' # nat_toString (unat m) else nat_toString (unat m))"
| "Number_toString (Other s) = s"

definition endsWith :: "string \<Rightarrow> string \<Rightarrow> bool" where
  "endsWith s suffix_str = (length suffix_str \<le> length s \<and>
     drop (length s - length suffix_str) s = suffix_str)"

text \<open>
  \<open>s.split(sep)\<close> for a one-character separator: the pieces between the separators, empty
  pieces kept; the empty string splits into one empty piece.
\<close>

fun split :: "string \<Rightarrow> char \<Rightarrow> string list" where
  "split [] sep = [[]]"
| "split (c # cs) sep =
     (if c = sep then [] # split cs sep
      else (case split cs sep of
              [] \<Rightarrow> [[c]]
            | p # ps \<Rightarrow> (c # p) # ps))"

text \<open>
  \<open>encodeURIComponent\<close> keeps the unreserved characters
  \<open>A-Z a-z 0-9 - _ . ! ~ * ' ( )\<close> and writes every other byte of the UTF-8 form as
  \<open>%XX\<close> with upper-case hexadecimal digits. (It throws \<open>URIError\<close> only on a lone
  surrogate, which has no UTF-8 form.)
\<close>

definition uri_unreserved :: "char \<Rightarrow> bool" where
  "uri_unreserved c = (c \<in> set
     (''ABCDEFGHIJKLMNOPQRSTUVWXYZabcdefghijklmnopqrstuvwxyz0123456789-_.!~*()'' @ [CHR 0x27]))"

definition hex_digit :: "nat \<Rightarrow> char" where
  "hex_digit d = ''0123456789ABCDEF'' ! d"

definition percent_encode :: "char \<Rightarrow> string" where
  "percent_encode c =
     [CHR ''%'', hex_digit (of_char c div 16), hex_digit (of_char c mod 16)]"

definition encodeURIComponent :: "string \<Rightarrow> string" where
  "encodeURIComponent s =
     concat (map (\<lambda>c. if uri_unreserved c then [c] else percent_encode c) s)"

section \<open>Data model (types/vamdc.ts)\<close>

record VamdcNode =
  id' :: string
  name :: string
  tapEndpoint :: string

record QueryParams =
  wavelengthMin :: js_double
  wavelengthMax :: js_double

section \<open>Query encoder (services/nodes.ts)\<close>

definition buildQueryString :: "QueryParams \<Rightarrow> string" where
  "buildQueryString params =
     ''SELECT * WHERE RadTransWavelength >= '' @ Number_toString (wavelengthMin params) @
     '' AND RadTransWavelength <= '' @ Number_toString (wavelengthMax params)"

definition buildDownloadUrl :: "string \<Rightarrow> string \<Rightarrow> string" where
  "buildDownloadUrl tapEndpoint_arg queryString =
     (let encoded = encodeURIComponent queryString
      in tapEndpoint_arg @ ''sync?LANG=VSS2&REQUEST=doQuery&FORMAT=XSAMS&QUERY='' @ encoded)"

section \<open>The network as the probe sees it\<close>

text \<open>
  A value that JavaScript code can throw: an \<open>Error\<close> instance with its \<open>name\<close> and
  \<open>message\<close>, or something that is not an \<open>Error\<close> (\<open>err instanceof Error\<close> is false).
\<close>

datatype js_value = ErrorObj (err_name: string) (err_message: string) | NonError

text \<open>
  A \<open>Response\<close>: its status code, status text, exposed headers in arrival order and body.
  \<open>response.ok\<close> is true exactly for the codes 200 to 299.
\<close>

record Response =
  http_status :: nat
  statusText :: string
  headers :: "(string \<times> string) list"
  body :: string

definition ok :: "Response \<Rightarrow> bool" where
  "ok response = (200 \<le> http_status response \<and> http_status response \<le> 299)"

text \<open>What \<open>await fetch(...)\<close> gives once it settles: a response, or a thrown value.\<close>

datatype fetch_outcome = Resolves Response | Rejects js_value

text \<open>
  An \<open>AbortSignal\<close> as \<open>fetch\<close> reads it: not aborted before the request settles, or
  aborted before that with an abort reason. \<open>controller.abort()\<close> without an argument
  gives the reason a \<open>DOMException\<close> named \<open>AbortError\<close>, \<open>controller.abort(reason)\<close>
  gives \<open>reason\<close>, and \<open>AbortSignal.timeout\<close> gives a \<open>DOMException\<close> named
  \<open>TimeoutError\<close>; a \<open>DOMException\<close> is an \<open>Error\<close> instance. On an aborted signal
  \<open>fetch\<close> rejects with the abort reason; otherwise the request settles as the network
  has it (\<open>net url\<close>).
\<close>

datatype abort_signal = Live | Aborted js_value

definition browser_fetch :: "(string \<Rightarrow> fetch_outcome) \<Rightarrow> string \<Rightarrow> abort_signal \<Rightarrow> fetch_outcome" where
  "browser_fetch net url signal =
     (case signal of
        Aborted reason \<Rightarrow> Rejects reason
      | Live \<Rightarrow> net url)"

text \<open>
  \<open>headers.get(name)\<close>: header names match without regard to ASCII case; the values of
  all headers of that name are joined with a comma and a space; \<open>null\<close> when there is none.
\<close>

definition to_lower :: "char \<Rightarrow> char" where
  "to_lower c =
     (case map_of (zip ''ABCDEFGHIJKLMNOPQRSTUVWXYZ'' ''abcdefghijklmnopqrstuvwxyz'') c of
        None \<Rightarrow> c
      | Some l \<Rightarrow> l)"

fun join_values :: "string list \<Rightarrow> string" where
  "join_values [] = []"
| "join_values [v] = v"
| "join_values (v # w # vs) = v @ '', '' @ join_values (w # vs)"

definition headers_get :: "(string \<times> string) list \<Rightarrow> string \<Rightarrow> string option" where
  "headers_get hs name_arg =
     (case map snd (filter (\<lambda>(k, v). map to_lower k = map to_lower name_arg) hs) of
        [] \<Rightarrow> None
      | vs \<Rightarrow> Some (join_values vs))"

text \<open>
  The number type of the statistics: \<open>parseInt\<close> gives \<open>NaN\<close> or an integer. An integer of
  magnitude above \<open>2^53\<close> is rounded to a double; \<open>Approx i\<close> stands for the double that
  \<open>parseInt\<close> chooses for the mathematical value \<open>i\<close>.
\<close>

datatype js_number = NaN | Num int | Approx int

definition is_digit :: "char \<Rightarrow> bool" where
  "is_digit c = (c \<in> set ''0123456789'')"

definition digit_value :: "char \<Rightarrow> int" where
  "digit_value c = int (of_char c) - 48"

text \<open>The white space that \<open>parseInt\<close> skips, as far as it occurs in a byte string.\<close>

definition str_whitespace :: "char \<Rightarrow> bool" where
  "str_whitespace c = (c \<in> set [CHR 0x09, CHR 0x0A, CHR 0x0B, CHR 0x0C, CHR 0x0D, CHR 0x20, CHR 0xA0])"

text \<open>
  \<open>parseInt(value, 10)\<close>: skip leading white space, read an optional sign, then the longest
  run of decimal digits; \<open>NaN\<close> when that run is empty. With radix 10 no \<open>0x\<close> prefix is
  recognised.
\<close>

definition parseInt :: "string \<Rightarrow> js_number" where
  "parseInt value_arg =
     (let trimmed = dropWhile str_whitespace value_arg;
          negative = (case trimmed of [] \<Rightarrow> False | c # _ \<Rightarrow> c = CHR ''-'');
          unsigned = (case trimmed of
                        [] \<Rightarrow> []
                      | c # cs \<Rightarrow> if c = CHR ''-'' \<or> c = CHR ''+'' then cs else trimmed);
          ds = takeWhile is_digit unsigned;
          magnitude = foldl (\<lambda>acc d. 10 * acc + digit_value d) 0 ds;
          signed = (if negative then - magnitude else magnitude)
      in if ds = [] then NaN
         else if magnitude \<le> 9007199254740992 then Num signed
         else Approx signed)"

section \<open>Node prober (services/nodes.ts)\<close>

datatype node_status = Pending | Success | Error | Timeout

record NodeResponse =
  nodeId :: string
  nodeName :: string
  status :: node_status
  numSpecies :: "js_number option"
  numStates :: "js_number option"
  numTransitions :: "js_number option"
  downloadUrl :: "string option"
  error :: "string option"

text \<open>The arrow function \<open>getHeader\<close>: \<open>value ? parseInt(value, 10) : 0\<close>.\<close>

definition getHeader :: "Response \<Rightarrow> string \<Rightarrow> js_number" where
  "getHeader response name_arg =
     (case headers_get (headers response) name_arg of
        None \<Rightarrow> Num 0
      | Some value_arg \<Rightarrow> if value_arg \<noteq> [] then parseInt value_arg else Num 0)"

text \<open>
  \<open>queryNode\<close> is a \<open>try\<close> block and its \<open>catch\<close> handler. A result \<open>Inl err\<close> stands for
  a thrown value, \<open>Inr r\<close> for a returned one. The parameter \<open>fetch\<close> is the browser's
  function: for a URL and an abort signal, how the awaited request settles.
\<close>

definition queryNode_try ::
  "(string \<Rightarrow> 'sig \<Rightarrow> fetch_outcome) \<Rightarrow> VamdcNode \<Rightarrow> string \<Rightarrow> 'sig \<Rightarrow> js_value + NodeResponse" where
  "queryNode_try fetch node url signal =
     (case fetch url signal of
        Rejects err \<Rightarrow> Inl err
      | Resolves response \<Rightarrow>
          if \<not> ok response then
            Inr \<lparr>nodeId = id' node, nodeName = name node, status = Error,
                 numSpecies = None, numStates = None, numTransitions = None,
                 downloadUrl = None,
                 error = Some (''HTTP '' @ nat_toString (http_status response))\<rparr>
          else
            let numSpecies_v = getHeader response ''VAMDC-COUNT-SPECIES'';
                numStates_v = getHeader response ''VAMDC-COUNT-STATES'';
                numTransitions_v = getHeader response ''VAMDC-COUNT-RADIATIVE''
            in Inr \<lparr>nodeId = id' node, nodeName = name node, status = Success,
                    numSpecies = Some numSpecies_v, numStates = Some numStates_v,
                    numTransitions = Some numTransitions_v,
                    downloadUrl = Some url, error = None\<rparr>)"

definition queryNode_catch :: "VamdcNode \<Rightarrow> js_value \<Rightarrow> js_value + NodeResponse" where
  "queryNode_catch node err =
     (case err of
        ErrorObj n m \<Rightarrow>
          if n = ''AbortError'' then
            Inr \<lparr>nodeId = id' node, nodeName = name node, status = Timeout,
                 numSpecies = None, numStates = None, numTransitions = None,
                 downloadUrl = None, error = Some ''Request timeout''\<rparr>
          else
            Inr \<lparr>nodeId = id' node, nodeName = name node, status = Error,
                 numSpecies = None, numStates = None, numTransitions = None,
                 downloadUrl = None, error = Some m\<rparr>
      | NonError \<Rightarrow>
          Inr \<lparr>nodeId = id' node, nodeName = name node, status = Error,
               numSpecies = None, numStates = None, numTransitions = None,
               downloadUrl = None, error = Some ''Unknown error''\<rparr>)"

definition queryNode ::
  "(string \<Rightarrow> 'sig \<Rightarrow> fetch_outcome) \<Rightarrow> VamdcNode \<Rightarrow> QueryParams \<Rightarrow> 'sig \<Rightarrow> js_value + NodeResponse" where
  "queryNode fetch node params signal =
     (let queryString = buildQueryString params;
          url = buildDownloadUrl (tapEndpoint node) queryString
      in case queryNode_try fetch node url signal of
           Inl err \<Rightarrow> queryNode_catch node err
         | Inr r \<Rightarrow> Inr r)"

section \<open>Node directory resolver, live strategy (registry service)\<close>

text \<open>
  The document that \<open>DOMParser.parseFromString(xmlText, 'text/xml')\<close> returns, as the tree
  of its root element: an element has a tag name and children, a text node has its
  characters. The parser itself is the browser's and is a parameter of \<open>parseNodesXml\<close>; on
  malformed input it returns an error document, never throws.
\<close>

datatype xml = Element string "xml list" | Text string

fun descendants :: "xml \<Rightarrow> xml list" where
  "descendants (Text t) = []"
| "descendants (Element tag children) = concat (map (\<lambda>c. c # descendants c) children)"

fun textContent :: "xml \<Rightarrow> string" where
  "textContent (Text t) = t"
| "textContent (Element tag children) = concat (map textContent children)"

definition is_element_named :: "string \<Rightarrow> xml \<Rightarrow> bool" where
  "is_element_named tag x = (case x of Element t _ \<Rightarrow> t = tag | Text _ \<Rightarrow> False)"

text \<open>
  \<open>doc.querySelectorAll(tag)\<close>: every element of the document with that tag, the root
  included, in document order. \<open>el.querySelector(tag)\<close>: the first such element below
  \<open>el\<close>, or \<open>null\<close>.
\<close>

definition doc_querySelectorAll :: "xml \<Rightarrow> string \<Rightarrow> xml list" where
  "doc_querySelectorAll doc tag = filter (is_element_named tag) (doc # descendants doc)"

definition querySelector :: "xml \<Rightarrow> string \<Rightarrow> xml option" where
  "querySelector el tag =
     (case filter (is_element_named tag) (descendants el) of
        [] \<Rightarrow> None
      | x # _ \<Rightarrow> Some x)"

text \<open>\<open>el.querySelector(tag)?.textContent || dflt\<close>\<close>

definition textContent_or :: "xml \<Rightarrow> string \<Rightarrow> string \<Rightarrow> string" where
  "textContent_or el tag dflt =
     (case querySelector el tag of
        None \<Rightarrow> dflt
      | Some x \<Rightarrow> if textContent x \<noteq> [] then textContent x else dflt)"

text \<open>
  The body of the \<open>forEach\<close> callback of \<open>parseNodesXml\<close>. \<open>first_url\<close> is the value of
  the variable \<open>url\<close> when the callback reaches \<open>if (url)\<close>; \<open>node_callback\<close> gives, from
  the element, its index and the array \<open>nodes\<close> so far, the array afterwards.
\<close>

definition first_url :: "xml \<Rightarrow> string" where
  "first_url el =
     (let url = textContent_or el ''url'' [];
          url = (case split url CHR '' '' of [] \<Rightarrow> [] | p # _ \<Rightarrow> p)
      in if url \<noteq> [] \<and> \<not> endsWith url ''/'' then url @ ''/'' else url)"

definition node_callback :: "xml \<Rightarrow> nat \<Rightarrow> VamdcNode list \<Rightarrow> VamdcNode list" where
  "node_callback el index nodes =
     (let title = textContent_or el ''title'' ''Unknown'';
          url = first_url el
      in if url \<noteq> [] then
           nodes @ [\<lparr>id' = ''node-'' @ nat_toString index, name = title, tapEndpoint = url\<rparr>]
         else nodes)"

fun forEach_node :: "xml list \<Rightarrow> nat \<Rightarrow> VamdcNode list \<Rightarrow> VamdcNode list" where
  "forEach_node [] index nodes = nodes"
| "forEach_node (el # els) index nodes = forEach_node els (Suc index) (node_callback el index nodes)"

definition parseNodesXml :: "(string \<Rightarrow> xml) \<Rightarrow> string \<Rightarrow> VamdcNode list" where
  "parseNodesXml parser xmlText =
     (let doc = parser xmlText;
          nodeElements = doc_querySelectorAll doc ''node''
      in forEach_node nodeElements 0 [])"

text \<open>
  \<open>fetchNodes\<close> of the live strategy. Its argument is how the POST to the registry
  settles; a rejected request and a non-success status both leave the function as a thrown
  value.
\<close>

definition fetchNodes_live :: "(string \<Rightarrow> xml) \<Rightarrow> fetch_outcome \<Rightarrow> js_value + VamdcNode list" where
  "fetchNodes_live parser outcome =
     (case outcome of
        Rejects err \<Rightarrow> Inl err
      | Resolves response \<Rightarrow>
          if \<not> ok response then
            Inl (ErrorObj ''Error'' (''Registry fetch failed: '' @ statusText response))
          else Inr (parseNodesXml parser (body response)))"

section \<open>Node directory resolver, static strategy (services/registry.ts)\<close>

text \<open>
  \<open>fetchNodes\<close> of the static strategy returns \<open>response.json()\<close> as it is. The parameter
  \<open>json\<close> is the browser's JSON reader on the body: the parsed list, or the thrown
  \<open>SyntaxError\<close>.
\<close>

definition fetchNodes_static ::
  "(string \<Rightarrow> js_value + VamdcNode list) \<Rightarrow> fetch_outcome \<Rightarrow> js_value + VamdcNode list" where
  "fetchNodes_static json outcome =
     (case outcome of
        Rejects err \<Rightarrow> Inl err
      | Resolves response \<Rightarrow>
          if \<not> ok response then
            Inl (ErrorObj ''Error'' (''Failed to load nodes: '' @ statusText response))
          else json (body response))"

section \<open>Fan-out coordinator (services/nodes.ts)\<close>

text \<open>
  Each call of the arrow function that \<open>queryAllNodes\<close> maps over \<open>nodes\<close> makes its own
  \<open>AbortController\<close> and a timer that aborts it after \<open>timeout = 30000\<close> milliseconds. The
  signal of the call for \<open>nodes[i]\<close> is identified by \<open>i\<close>. What the network does for
  that request before the timer fires is one of: a response arrives, the request fails by
  itself, or nothing happens. In the last case the timer fires, the signal aborts and
  \<open>fetch\<close> rejects with the \<open>DOMException\<close> named \<open>AbortError\<close> (an \<open>Error\<close> instance;
  its message is the browser's and is not read by the code).
\<close>

datatype net_behaviour = Responds Response | Fails js_value | Silent

definition abort_error :: js_value where
  "abort_error = ErrorObj ''AbortError'' ''signal is aborted without reason''"

definition fetch_with_timer ::
  "(string \<Rightarrow> nat \<Rightarrow> net_behaviour) \<Rightarrow> string \<Rightarrow> nat \<Rightarrow> fetch_outcome" where
  "fetch_with_timer net url signal =
     (case net url signal of
        Responds response \<Rightarrow> Resolves response
      | Fails err \<Rightarrow> Rejects err
      | Silent \<Rightarrow> Rejects abort_error)"

text \<open>How a promise has settled.\<close>

datatype 'a settled = Fulfilled 'a | Rejected js_value

text \<open>
  The result object that \<open>queryNode\<close> returns is the very object that the arrow function
  hands to the sink and then returns, so a sink that writes to it, then or later, changes
  what the caller finds in the returned array. Result objects therefore live in a store:
  the object of the task for \<open>nodes[i]\<close> has the address \<open>i\<close>. An address at which no
  object has been made yet holds \<open>no_object\<close>, which is never read.
\<close>

type_synonym ref = nat

type_synonym heap = "ref \<Rightarrow> NodeResponse"

definition no_object :: NodeResponse where
  "no_object = \<lparr>nodeId = [], nodeName = [], status = Pending,
                 numSpecies = None, numStates = None, numTransitions = None,
                 downloadUrl = None, error = None\<rparr>"

definition empty_heap :: heap where
  "empty_heap = (\<lambda>a. no_object)"

text \<open>
  The progress sink \<open>onProgress\<close> is the caller's function. It has a state of its own and
  may keep the objects it was given. A call, for the address of the object it is given,
  the store and the sink's state, gives the store and the state afterwards and, when the
  sink throws, the thrown value.
\<close>

type_synonym 's sink = "ref \<Rightarrow> heap \<Rightarrow> 's \<Rightarrow> heap \<times> 's \<times> js_value option"

text \<open>
  The arrow function for \<open>nodes[i]\<close>, run when its \<open>queryNode\<close> has settled: the
  settlement of its own promise, the contents of the objects it passed to the sink at the
  moment of the call, and the store and the sink's state afterwards. Its promise is
  fulfilled with the object of \<open>queryNode\<close>; a throw of \<open>queryNode\<close> or of the sink
  rejects it.
\<close>

definition node_task ::
  "(string \<Rightarrow> nat \<Rightarrow> net_behaviour) \<Rightarrow> QueryParams \<Rightarrow> 's sink \<Rightarrow> VamdcNode \<Rightarrow> nat \<Rightarrow> heap \<Rightarrow> 's
     \<Rightarrow> ref settled \<times> NodeResponse list \<times> heap \<times> 's" where
  "node_task net params onProgress node i h s =
     (case queryNode (fetch_with_timer net) node params i of
        Inl err \<Rightarrow> (Rejected err, [], h, s)
      | Inr response \<Rightarrow>
          (case onProgress i (h(i := response)) s of
             (h', s', None) \<Rightarrow> (Fulfilled i, [response], h', s')
           | (h', s', Some err) \<Rightarrow> (Rejected err, [response], h', s')))"

text \<open>
  The state of one fan-out round: the sink's state, the store of result objects, the
  contents of the arguments of all sink calls so far in the order of the calls, and the
  promises of the array \<open>promises\<close> that have settled, with their index, in the order of
  settlement.
\<close>

record 's fanout =
  sink_state :: 's
  objects :: heap
  calls :: "NodeResponse list"
  promises :: "(nat \<times> ref settled) list"

text \<open>The task of \<open>nodes[i]\<close> settles. A task settles once; an index outside the array is no task.\<close>

definition settle ::
  "(string \<Rightarrow> nat \<Rightarrow> net_behaviour) \<Rightarrow> QueryParams \<Rightarrow> 's sink \<Rightarrow> VamdcNode list \<Rightarrow> nat
     \<Rightarrow> 's fanout \<Rightarrow> 's fanout" where
  "settle net params onProgress nodes i st =
     (if i < length nodes \<and> i \<notin> set (map fst (promises st)) then
        (case node_task net params onProgress (nodes ! i) i (objects st) (sink_state st) of
           (p, cs, h', s') \<Rightarrow>
             \<lparr>sink_state = s', objects = h', calls = calls st @ cs,
              promises = promises st @ [(i, p)]\<rparr>)
      else st)"

text \<open>
  \<open>Promise.all\<close> over an array of \<open>n\<close> promises, given those that have settled so far in
  the order of settlement: rejected with the value of the first rejection; fulfilled with
  the values in array order once all \<open>n\<close> are fulfilled; pending (\<open>None\<close>) otherwise.
\<close>

fun first_rejection :: "(nat \<times> 'a settled) list \<Rightarrow> js_value option" where
  "first_rejection [] = None"
| "first_rejection ((i, Rejected err) # ps) = Some err"
| "first_rejection ((i, Fulfilled v) # ps) = first_rejection ps"

definition fulfilled_value :: "(nat \<times> 'a settled) list \<Rightarrow> nat \<Rightarrow> 'a option" where
  "fulfilled_value ps i =
     (case map_of ps i of
        Some (Fulfilled v) \<Rightarrow> Some v
      | _ \<Rightarrow> None)"

definition Promise_all :: "nat \<Rightarrow> (nat \<times> 'a settled) list \<Rightarrow> 'a list settled option" where
  "Promise_all n ps =
     (case first_rejection ps of
        Some err \<Rightarrow> Some (Rejected err)
      | None \<Rightarrow> map_option Fulfilled (those (map (fulfilled_value ps) [0..<n])))"

text \<open>What the caller reads in a settled array of result objects, in a given store.\<close>

definition read_all :: "heap \<Rightarrow> ref list settled \<Rightarrow> NodeResponse list settled" where
  "read_all h p =
     (case p of
        Fulfilled refs \<Rightarrow> Fulfilled (map h refs)
      | Rejected err \<Rightarrow> Rejected err)"

text \<open>
  \<open>queryAllNodes\<close>, observed after the tasks listed in \<open>schedule\<close> have settled in that
  order: the state of the promise it returned, with the contents of the returned array as
  the store then holds them, and the state of the round. The schedule and the network are
  the environment; \<open>s0\<close> is the sink's state at the call.
\<close>

definition queryAllNodes ::
  "VamdcNode list \<Rightarrow> QueryParams \<Rightarrow> 's sink \<Rightarrow> (string \<Rightarrow> nat \<Rightarrow> net_behaviour) \<Rightarrow> nat list \<Rightarrow> 's
     \<Rightarrow> NodeResponse list settled option \<times> 's fanout" where
  "queryAllNodes nodes params onProgress net schedule s0 =
     (let st = fold (settle net params onProgress nodes) schedule
                 \<lparr>sink_state = s0, objects = empty_heap, calls = [], promises = []\<rparr>
      in (map_option (read_all (objects st)) (Promise_all (length nodes) (promises st)), st))"

section \<open>Notions of the specification\<close>

text \<open>
  What one call of the sink leaves behind, when it is given a result object with the
  contents \<open>r\<close> at the address \<open>a\<close>: the store and the sink's state after the call,
  whether the call returns or throws.
\<close>

definition sink_effect :: "'s sink \<Rightarrow> ref \<times> NodeResponse \<Rightarrow> heap \<times> 's \<Rightarrow> heap \<times> 's" where
  "sink_effect onProgress = (\<lambda>(a, r) (h, s).
     case onProgress a (h(a := r)) s of (h', s', e) \<Rightarrow> (h', s'))"

text \<open>
  The candidate URLs of a record, in the words of the specification: the pieces of the text
  of its \<open>url\<close> element that are separated by white space.
\<close>

definition is_whitespace :: "char \<Rightarrow> bool" where
  "is_whitespace c = (c \<in> set [CHR 0x09, CHR 0x0A, CHR 0x0B, CHR 0x0C, CHR 0x0D, CHR 0x20])"

fun split_on :: "(char \<Rightarrow> bool) \<Rightarrow> string \<Rightarrow> string list" where
  "split_on P [] = [[]]"
| "split_on P (c # cs) =
     (if P c then [] # split_on P cs
      else (case split_on P cs of
              [] \<Rightarrow> [[c]]
            | p # ps \<Rightarrow> (c # p) # ps))"

definition candidate_urls :: "xml \<Rightarrow> string list" where
  "candidate_urls el =
     filter (\<lambda>p. p \<noteq> []) (split_on is_whitespace (textContent_or el ''url'' []))"

text \<open>The first candidate with a trailing slash, or nothing for a record without candidates.\<close>

definition spec_endpoint :: "xml \<Rightarrow> string option" where
  "spec_endpoint el =
     (case candidate_urls el of
        [] \<Rightarrow> None
      | u # _ \<Rightarrow> Some (if endsWith u ''/'' then u else u @ ''/''))"

text \<open>
  A url text in which the candidates are separated by the space character only and which
  does not begin with a space.
\<close>

definition space_separated :: "string \<Rightarrow> bool" where
  "space_separated t =
     (list_all (\<lambda>c. is_whitespace c \<longrightarrow> c = CHR '' '') t \<and>
      (case t of [] \<Rightarrow> True | c # _ \<Rightarrow> c \<noteq> CHR '' ''))"

text \<open>An absolute URL begins with a scheme: a letter, then letters, digits, plus, minus or dot, then a colon.\<close>

definition is_alpha :: "char \<Rightarrow> bool" where
  "is_alpha c = (c \<in> set ''ABCDEFGHIJKLMNOPQRSTUVWXYZabcdefghijklmnopqrstuvwxyz'')"

definition is_absolute_url :: "string \<Rightarrow> bool" where
  "is_absolute_url s =
     (case takeWhile (\<lambda>c. c \<noteq> CHR '':'') s of
        [] \<Rightarrow> False
      | c # cs \<Rightarrow> length (c # cs) < length s \<and> is_alpha c \<and>
                 list_all (\<lambda>d. is_alpha d \<or> is_digit d \<or> d \<in> set ''+-.'') cs)"

section \<open>The query encoder on the scenario of the specification\<close>

lemma query_string_scenario:
  "buildQueryString \<lparr>wavelengthMin = Whole False 4000, wavelengthMax = Whole False 5000\<rparr>
   = ''SELECT * WHERE RadTransWavelength >= 4000 AND RadTransWavelength <= 5000''"
  by (simp add: buildQueryString_def nat_toString.simps digit_char_def)

lemma encoded_scenario:
  "encodeURIComponent ''SELECT * WHERE RadTransWavelength >= 4000 AND RadTransWavelength <= 5000''
   = ''SELECT%20*%20WHERE%20RadTransWavelength%20%3E%3D%204000%20AND%20RadTransWavelength%20%3C%3D%205000''"
  by (simp add: encodeURIComponent_def uri_unreserved_def percent_encode_def hex_digit_def)

text \<open>
  C3 (as the specification states it, refuted): for the wavelengths 4000 and 5000 and the
  base URL \<open>https://x.org/tap/\<close> the probe URL is not the string of the specification,
  which writes the asterisk of the query as \<open>%2A\<close>.
\<close>

theorem probe_url_scenario_counterexample:
  "buildDownloadUrl ''https://x.org/tap/''
     (buildQueryString \<lparr>wavelengthMin = Whole False 4000, wavelengthMax = Whole False 5000\<rparr>)
   \<noteq> ''https://x.org/tap/sync?LANG=VSS2&REQUEST=doQuery&FORMAT=XSAMS&QUERY=SELECT%20%2A%20WHERE%20RadTransWavelength%20%3E%3D%204000%20AND%20RadTransWavelength%20%3C%3D%205000''"
  by (simp add: buildDownloadUrl_def query_string_scenario encoded_scenario)

text \<open>
  C3 (amended): for the wavelengths 4000 and 5000 and the base URL \<open>https://x.org/tap/\<close>
  the probe URL is the string of the specification with the asterisk left as it is:
  \<open>encodeURIComponent\<close> does not escape \<open>*\<close>.
\<close>

theorem probe_url_scenario:
  "buildDownloadUrl ''https://x.org/tap/''
     (buildQueryString \<lparr>wavelengthMin = Whole False 4000, wavelengthMax = Whole False 5000\<rparr>)
   = ''https://x.org/tap/sync?LANG=VSS2&REQUEST=doQuery&FORMAT=XSAMS&QUERY=SELECT%20*%20WHERE%20RadTransWavelength%20%3E%3D%204000%20AND%20RadTransWavelength%20%3C%3D%205000''"
  by (simp add: buildDownloadUrl_def query_string_scenario encoded_scenario)

section \<open>The prober returns a terminal result on every outcome\<close>

text \<open>
  C2 (as the specification states it, refuted): a signal aborted with a reason other than
  an \<open>AbortError\<close>, here the \<open>TimeoutError\<close> of \<open>AbortSignal.timeout\<close>, cancels the
  request before it settles, and \<open>queryNode\<close> returns status \<open>error\<close> with the message of
  the reason, not \<open>timeout\<close> with \<open>Request timeout\<close>: the \<open>catch\<close> handler tests the name
  of the thrown error.
\<close>

theorem queryNode_total_counterexample:
  "queryNode
     (browser_fetch (\<lambda>url. Resolves \<lparr>http_status = 200, statusText = ''OK'', headers = [], body = []\<rparr>))
     \<lparr>id' = ''node-0'', name = ''A'', tapEndpoint = ''https://x.org/tap/''\<rparr>
     \<lparr>wavelengthMin = Whole False 4000, wavelengthMax = Whole False 5000\<rparr>
     (Aborted (ErrorObj ''TimeoutError'' ''signal timed out''))
   = Inr \<lparr>nodeId = ''node-0'', nodeName = ''A'', status = Error,
          numSpecies = None, numStates = None, numTransitions = None,
          downloadUrl = None, error = Some ''signal timed out''\<rparr>"
  by (simp add: queryNode_def queryNode_try_def queryNode_catch_def browser_fetch_def Let_def)

text \<open>
  C2 (amended): for every node, parameters and signal, and however the request settles,
  \<open>queryNode\<close> throws nothing: it returns one result, for this node, whose status is
  \<open>success\<close>, \<open>error\<close> or \<open>timeout\<close> and never \<open>pending\<close>. A request cancelled before
  it settles by a signal whose abort reason is an error named \<open>AbortError\<close> (the reason of
  \<open>controller.abort()\<close>, which \<open>queryAllNodes\<close> uses) gives \<open>timeout\<close> with the text
  \<open>Request timeout\<close>. A request cancelled with any other reason, and one that fails by
  itself with anything but an \<open>AbortError\<close>, gives \<open>error\<close> with the message of the
  thrown error, or \<open>Unknown error\<close> for a thrown value that is not an error object.
\<close>

theorem queryNode_total:
  "(\<exists>r. queryNode fetch node params sig = Inr r
        \<and> nodeId r = id' node \<and> nodeName r = name node
        \<and> status r \<in> {Success, Error, Timeout} \<and> status r \<noteq> Pending)
   \<and> (\<exists>r. queryNode (browser_fetch net) node params signal = Inr r
        \<and> (\<forall>m. signal = Aborted (ErrorObj ''AbortError'' m)
               \<longrightarrow> status r = Timeout \<and> error r = Some ''Request timeout'')
        \<and> (\<forall>n m. signal = Aborted (ErrorObj n m) \<and> n \<noteq> ''AbortError''
               \<longrightarrow> status r = Error \<and> error r = Some m)
        \<and> (signal = Aborted NonError
               \<longrightarrow> status r = Error \<and> error r = Some ''Unknown error'')
        \<and> (\<forall>n m. signal = Live
                  \<and> net (buildDownloadUrl (tapEndpoint node) (buildQueryString params))
                      = Rejects (ErrorObj n m) \<and> n \<noteq> ''AbortError''
               \<longrightarrow> status r = Error \<and> error r = Some m)
        \<and> (signal = Live
              \<and> net (buildDownloadUrl (tapEndpoint node) (buildQueryString params))
                  = Rejects NonError
               \<longrightarrow> status r = Error \<and> error r = Some ''Unknown error''))"
proof (intro conjI)
  show "\<exists>r. queryNode fetch node params sig = Inr r
        \<and> nodeId r = id' node \<and> nodeName r = name node
        \<and> status r \<in> {Success, Error, Timeout} \<and> status r \<noteq> Pending"
  proof (cases "fetch (buildDownloadUrl (tapEndpoint node) (buildQueryString params)) sig")
    case (Resolves response)
    then show ?thesis
      by (simp add: queryNode_def queryNode_try_def Let_def)
  next
    case (Rejects err)
    then show ?thesis
      by (cases err) (simp_all add: queryNode_def queryNode_try_def queryNode_catch_def Let_def)
  qed
  let ?url = "buildDownloadUrl (tapEndpoint node) (buildQueryString params)"
  show "\<exists>r. queryNode (browser_fetch net) node params signal = Inr r
        \<and> (\<forall>m. signal = Aborted (ErrorObj ''AbortError'' m)
               \<longrightarrow> status r = Timeout \<and> error r = Some ''Request timeout'')
        \<and> (\<forall>n m. signal = Aborted (ErrorObj n m) \<and> n \<noteq> ''AbortError''
               \<longrightarrow> status r = Error \<and> error r = Some m)
        \<and> (signal = Aborted NonError
               \<longrightarrow> status r = Error \<and> error r = Some ''Unknown error'')
        \<and> (\<forall>n m. signal = Live \<and> net ?url = Rejects (ErrorObj n m) \<and> n \<noteq> ''AbortError''
               \<longrightarrow> status r = Error \<and> error r = Some m)
        \<and> (signal = Live \<and> net ?url = Rejects NonError
               \<longrightarrow> status r = Error \<and> error r = Some ''Unknown error'')"
  proof (cases "browser_fetch net ?url signal")
    case (Resolves response)
    then show ?thesis
      by (cases signal)
         (auto simp: queryNode_def queryNode_try_def Let_def browser_fetch_def)
  next
    case (Rejects err)
    then show ?thesis
      by (cases signal; cases err)
         (auto simp: queryNode_def queryNode_try_def queryNode_catch_def Let_def browser_fetch_def)
  qed
qed

theorem queryNode_total_witness:
  "\<exists>r. queryNode
          (browser_fetch (\<lambda>url. Resolves \<lparr>http_status = 200, statusText = ''OK'', headers = [], body = []\<rparr>))
          \<lparr>id' = ''node-0'', name = ''A'', tapEndpoint = ''https://x.org/tap/''\<rparr>
          \<lparr>wavelengthMin = Whole False 4000, wavelengthMax = Whole False 5000\<rparr>
          (Aborted (ErrorObj ''AbortError'' ''signal is aborted without reason'')) = Inr r
       \<and> status r = Timeout \<and> error r = Some ''Request timeout''"
  using queryNode_total [where net = "\<lambda>url. Resolves \<lparr>http_status = 200, statusText = ''OK'', headers = [], body = []\<rparr>"
      and node = "\<lparr>id' = ''node-0'', name = ''A'', tapEndpoint = ''https://x.org/tap/''\<rparr>"
      and params = "\<lparr>wavelengthMin = Whole False 4000, wavelengthMax = Whole False 5000\<rparr>"
      and signal = "Aborted (ErrorObj ''AbortError'' ''signal is aborted without reason'')",
      THEN conjunct2]
  by auto

section \<open>A response with a non-success status\<close>

text \<open>
  C7: when the request settles with a response whose status code is not a success code,
  \<open>queryNode\<close> returns the result with status \<open>error\<close> and the text \<open>HTTP\<close> followed by
  the code; the result has no \<open>numSpecies\<close>, \<open>numStates\<close>, \<open>numTransitions\<close> and no
  \<open>downloadUrl\<close>.
\<close>

theorem queryNode_http_error:
  assumes "fetch (buildDownloadUrl (tapEndpoint node) (buildQueryString params)) signal
             = Resolves response"
      and "\<not> ok response"
  shows "queryNode fetch node params signal =
           Inr \<lparr>nodeId = id' node, nodeName = name node, status = Error,
                numSpecies = None, numStates = None, numTransitions = None,
                downloadUrl = None,
                error = Some (''HTTP '' @ nat_toString (http_status response))\<rparr>"
  using assms by (simp add: queryNode_def queryNode_try_def Let_def)

theorem queryNode_http_error_witness:
  "queryNode (\<lambda>url (signal::unit). Resolves \<lparr>http_status = 503,
                 statusText = ''Service Unavailable'',
                 headers = [(''VAMDC-COUNT-SPECIES'', ''12'')], body = []\<rparr>)
          \<lparr>id' = ''node-0'', name = ''A'', tapEndpoint = ''https://x.org/tap/''\<rparr>
          \<lparr>wavelengthMin = Whole False 4000, wavelengthMax = Whole False 5000\<rparr> ()
     = Inr \<lparr>nodeId = ''node-0'', nodeName = ''A'', status = Error,
                numSpecies = None, numStates = None, numTransitions = None,
                downloadUrl = None, error = Some ''HTTP 503''\<rparr>"
proof -
  have nok: "\<not> ok \<lparr>http_status = 503, statusText = ''Service Unavailable'',
                 headers = [(''VAMDC-COUNT-SPECIES'', ''12'')], body = []\<rparr>"
    by (simp add: ok_def)
  have str: "nat_toString 503 = ''503''"
    by (simp add: nat_toString.simps digit_char_def)
  show ?thesis
    using queryNode_http_error [of "\<lambda>url (signal::unit). Resolves \<lparr>http_status = 503,
                 statusText = ''Service Unavailable'',
                 headers = [(''VAMDC-COUNT-SPECIES'', ''12'')], body = []\<rparr>"
          "\<lparr>id' = ''node-0'', name = ''A'', tapEndpoint = ''https://x.org/tap/''\<rparr>"
          "\<lparr>wavelengthMin = Whole False 4000, wavelengthMax = Whole False 5000\<rparr>" "()", OF refl nok]
    by (simp add: str)
qed

section \<open>Statistics read from the response headers\<close>

text \<open>A header is absent for \<open>headers.get\<close> when no header of the response has its name, in any case.\<close>

lemma headers_get_None_iff:
  "headers_get hs name_arg = None \<longleftrightarrow> (\<forall>(k, v) \<in> set hs. map to_lower k \<noteq> map to_lower name_arg)"
proof -
  have "headers_get hs name_arg = None \<longleftrightarrow>
          filter (\<lambda>(k, v). map to_lower k = map to_lower name_arg) hs = []"
    by (cases "filter (\<lambda>(k, v). map to_lower k = map to_lower name_arg) hs")
       (simp_all add: headers_get_def)
  then show ?thesis
    by (auto simp: filter_empty_conv)
qed

lemma getHeader_default:
  "headers_get (headers response) name_arg = None \<or> headers_get (headers response) name_arg = Some []
     \<Longrightarrow> getHeader response name_arg = Num 0"
  by (auto simp: getHeader_def)

text \<open>
  C4 (as the specification states it, refuted): a success response whose species header
  has a value that is not a number gives \<open>numSpecies = NaN\<close>, not \<open>0\<close>: \<open>getHeader\<close>
  passes every non-empty value to \<open>parseInt\<close>.
\<close>

theorem getHeader_non_numeric_counterexample:
  "getHeader \<lparr>http_status = 200, statusText = ''OK'',
               headers = [(''VAMDC-COUNT-SPECIES'', ''many'')], body = []\<rparr>
       ''VAMDC-COUNT-SPECIES'' = NaN
   \<and> map_sum (\<lambda>e. e) (\<lambda>r. (status r, numSpecies r))
        (queryNode (\<lambda>url (signal::unit). Resolves \<lparr>http_status = 200, statusText = ''OK'',
               headers = [(''VAMDC-COUNT-SPECIES'', ''many'')], body = []\<rparr>)
          \<lparr>id' = ''node-0'', name = ''A'', tapEndpoint = ''https://x.org/tap/''\<rparr>
          \<lparr>wavelengthMin = Whole False 4000, wavelengthMax = Whole False 5000\<rparr> ())
     = Inr (Success, Some NaN)"
  by (simp add: queryNode_def queryNode_try_def ok_def getHeader_def headers_get_def to_lower_def parseInt_def
        str_whitespace_def is_digit_def Let_def)

text \<open>
  C4 (amended): for every success response, \<open>queryNode\<close> returns a \<open>success\<close> result
  that carries all three statistics, and each of them is \<open>0\<close> when its header is absent
  or has the empty value; no error is raised. In particular a response with two of the
  three headers gives the third statistic as \<open>0\<close>.
\<close>

theorem queryNode_statistics_default:
  assumes "fetch (buildDownloadUrl (tapEndpoint node) (buildQueryString params)) signal
             = Resolves response"
      and "ok response"
  shows "\<exists>r. queryNode fetch node params signal = Inr r \<and> status r = Success
           \<and> numSpecies r \<noteq> None \<and> numStates r \<noteq> None \<and> numTransitions r \<noteq> None
           \<and> (headers_get (headers response) ''VAMDC-COUNT-SPECIES'' = None
                \<or> headers_get (headers response) ''VAMDC-COUNT-SPECIES'' = Some []
                 \<longrightarrow> numSpecies r = Some (Num 0))
           \<and> (headers_get (headers response) ''VAMDC-COUNT-STATES'' = None
                \<or> headers_get (headers response) ''VAMDC-COUNT-STATES'' = Some []
                 \<longrightarrow> numStates r = Some (Num 0))
           \<and> (headers_get (headers response) ''VAMDC-COUNT-RADIATIVE'' = None
                \<or> headers_get (headers response) ''VAMDC-COUNT-RADIATIVE'' = Some []
                 \<longrightarrow> numTransitions r = Some (Num 0))"
  using assms by (simp add: queryNode_def queryNode_try_def Let_def getHeader_default)

theorem queryNode_statistics_default_witness:
  "\<exists>r. queryNode (\<lambda>url (signal::unit). Resolves \<lparr>http_status = 200, statusText = ''OK'',
               headers = [(''VAMDC-COUNT-SPECIES'', ''12''), (''VAMDC-COUNT-STATES'', ''40'')], body = []\<rparr>)
          \<lparr>id' = ''node-0'', name = ''A'', tapEndpoint = ''https://x.org/tap/''\<rparr>
          \<lparr>wavelengthMin = Whole False 4000, wavelengthMax = Whole False 5000\<rparr> () = Inr r
       \<and> status r = Success \<and> numTransitions r = Some (Num 0)"
proof -
  let ?resp = "\<lparr>http_status = 200, statusText = ''OK'',
               headers = [(''VAMDC-COUNT-SPECIES'', ''12''), (''VAMDC-COUNT-STATES'', ''40'')], body = []\<rparr>"
  have okr: "ok ?resp" by (simp add: ok_def)
  have absent: "headers_get (headers ?resp) ''VAMDC-COUNT-RADIATIVE'' = None"
    by (simp add: headers_get_def to_lower_def)
  show ?thesis
    using queryNode_statistics_default [of "\<lambda>url (signal::unit). Resolves ?resp"
          "\<lparr>id' = ''node-0'', name = ''A'', tapEndpoint = ''https://x.org/tap/''\<rparr>"
          "\<lparr>wavelengthMin = Whole False 4000, wavelengthMax = Whole False 5000\<rparr>" "()" ?resp, OF refl okr] absent
    by auto
qed

section \<open>The live resolver, record by record\<close>

lemma node_callback_append: "node_callback el index nodes = nodes @ node_callback el index []"
  by (simp add: node_callback_def Let_def)

lemma forEach_node_concat:
  "forEach_node els k acc
     = acc @ concat (map (\<lambda>(index, el). node_callback el index []) (enumerate k els))"
proof (induction els arbitrary: k acc)
  case Nil
  show ?case by simp
next
  case (Cons el els)
  show ?case
    by (simp add: Cons.IH [of "Suc k"]) (subst node_callback_append, simp)
qed

lemma parseNodesXml_concat:
  "parseNodesXml parser xmlText
     = concat (map (\<lambda>(index, el). node_callback el index [])
                (enumerate 0 (doc_querySelectorAll (parser xmlText) ''node'')))"
  by (simp add: parseNodesXml_def Let_def forEach_node_concat)

lemma endsWith_append_self: "endsWith (u @ v) v"
  by (simp add: endsWith_def)

lemma first_url_slash: "first_url el \<noteq> [] \<Longrightarrow> endsWith (first_url el) ''/''"
  unfolding first_url_def Let_def
  by (auto simp: endsWith_append_self split: if_splits)

lemma node_callback_cases:
  "node_callback el index [] =
     (if first_url el \<noteq> [] then
        [\<lparr>id' = ''node-'' @ nat_toString index, name = textContent_or el ''title'' ''Unknown'',
          tapEndpoint = first_url el\<rparr>]
      else [])"
  by (simp add: node_callback_def Let_def)

lemma concat_map_singleton_filter:
  "concat (map (\<lambda>x. if P x then [f x] else []) xs) = map f (filter P xs)"
  by (induction xs) simp_all

text \<open>
  \<open>parseNodesXml\<close> keeps the records whose \<open>url\<close> is not empty after the split, in
  document order, each under the index it has among all records.
\<close>

lemma parseNodesXml_map_filter:
  "parseNodesXml parser xmlText
     = map (\<lambda>(index, el). \<lparr>id' = ''node-'' @ nat_toString index,
                             name = textContent_or el ''title'' ''Unknown'',
                             tapEndpoint = first_url el\<rparr>)
         (filter (\<lambda>(index, el). first_url el \<noteq> [])
            (enumerate 0 (doc_querySelectorAll (parser xmlText) ''node'')))"
proof -
  have "(\<lambda>(index, el). node_callback el index [])
          = (\<lambda>x. if (\<lambda>(index, el). first_url el \<noteq> []) x
                  then [(\<lambda>(index, el). \<lparr>id' = ''node-'' @ nat_toString index,
                             name = textContent_or el ''title'' ''Unknown'',
                             tapEndpoint = first_url el\<rparr>) x] else [])"
    by (auto simp: node_callback_cases fun_eq_iff)
  then show ?thesis
    by (simp only: parseNodesXml_concat concat_map_singleton_filter)
qed

lemma parseNodesXml_set:
  "set (parseNodesXml parser xmlText)
     = (\<lambda>(index, el). \<lparr>id' = ''node-'' @ nat_toString index,
                             name = textContent_or el ''title'' ''Unknown'',
                             tapEndpoint = first_url el\<rparr>) `
         {x \<in> set (enumerate 0 (doc_querySelectorAll (parser xmlText) ''node'')). first_url (snd x) \<noteq> []}"
  by (simp add: parseNodesXml_map_filter case_prod_beta)

lemma parseNodesXml_endpoint:
  "n \<in> set (parseNodesXml parser xmlText) \<Longrightarrow> tapEndpoint n \<noteq> [] \<and> endsWith (tapEndpoint n) ''/''"
  by (auto simp: parseNodesXml_set first_url_slash)

subsection \<open>Printing an index in decimal loses nothing\<close>

lemma digit_char_value: "d < 10 \<Longrightarrow> of_char (digit_char d) = (48 + d :: nat)"
proof -
  assume "d < 10"
  then have "d \<in> {0, 1, 2, 3, 4, 5, 6, 7, 8, 9}" by auto
  then show ?thesis
    by (auto simp: digit_char_def)
qed

lemma digits_value_toString:
  "foldl (\<lambda>acc c. 10 * acc + (of_char c - 48)) 0 (nat_toString n) = n"
proof (induction n rule: nat_toString.induct)
  case (1 n)
  show ?case
  proof (cases "n < 10")
    case True
    then show ?thesis
      by (subst nat_toString.simps) (simp add: digit_char_value)
  next
    case False
    have "n mod 10 < 10" by simp
    then have d: "of_char (digit_char (n mod 10)) = (48 + n mod 10 :: nat)"
      by (rule digit_char_value)
    from False have "foldl (\<lambda>acc c. 10 * acc + (of_char c - 48)) 0 (nat_toString (n div 10)) = n div 10"
      by (rule "1.IH")
    with False d show ?thesis
      by (subst nat_toString.simps) simp
  qed
qed

lemma nat_toString_inj: "nat_toString m = nat_toString n \<Longrightarrow> m = n"
  by (metis digits_value_toString)

lemma node_id_inj: "''node-'' @ nat_toString m = ''node-'' @ nat_toString n \<Longrightarrow> m = n"
  by (simp add: nat_toString_inj)

lemma parseNodesXml_ids_helper:
  "map id' (parseNodesXml parser xmlText)
     = map (\<lambda>index. ''node-'' @ nat_toString index)
         (map fst (filter (\<lambda>(index, el). first_url el \<noteq> [])
            (enumerate 0 (doc_querySelectorAll (parser xmlText) ''node''))))"
  by (simp add: parseNodesXml_map_filter case_prod_beta comp_def)

lemma parseNodesXml_distinct_ids: "distinct (map id' (parseNodesXml parser xmlText))"
proof -
  have "distinct (map fst (enumerate 0 (doc_querySelectorAll (parser xmlText) ''node'')))"
    by simp
  then have "distinct (map fst (filter (\<lambda>(index, el). first_url el \<noteq> [])
            (enumerate 0 (doc_querySelectorAll (parser xmlText) ''node''))))"
    by (rule distinct_map_filter)
  moreover have "inj_on (\<lambda>index. ''node-'' @ nat_toString index) A" for A
    by (rule inj_onI) (rule node_id_inj)
  ultimately show ?thesis
    unfolding parseNodesXml_ids_helper
    by (simp only: distinct_map)
qed

subsection \<open>The first candidate URL\<close>

lemma split_on_eq_split:
  "list_all (\<lambda>c. is_whitespace c \<longrightarrow> c = CHR '' '') t \<Longrightarrow> split_on is_whitespace t = split t CHR '' ''"
proof (induction t)
  case Nil
  show ?case by simp
next
  case (Cons c cs)
  have sp: "is_whitespace CHR '' ''" by (simp add: is_whitespace_def)
  from Cons.prems have "is_whitespace c \<longleftrightarrow> c = CHR '' ''"
    using sp by auto
  moreover from Cons have "split_on is_whitespace cs = split cs CHR '' ''" by simp
  ultimately show ?case by simp
qed

lemma split_head: "c \<noteq> sep \<Longrightarrow> \<exists>p ps. split (c # cs) sep = (c # p) # ps"
  by (cases "split cs sep") simp_all

lemma first_url_spec:
  assumes "space_separated (textContent_or el ''url'' [])"
  shows "(if first_url el \<noteq> [] then Some (first_url el) else None) = spec_endpoint el"
proof (cases "textContent_or el ''url'' []")
  case Nil
  then show ?thesis
    by (simp add: first_url_def spec_endpoint_def candidate_urls_def)
next
  case (Cons c cs)
  with assms have ws: "list_all (\<lambda>c. is_whitespace c \<longrightarrow> c = CHR '' '') (c # cs)"
    and c: "c \<noteq> CHR '' ''"
    by (simp_all add: space_separated_def)
  from c obtain p ps where sp: "split (c # cs) CHR '' '' = (c # p) # ps"
    using split_head by blast
  have "split_on is_whitespace (c # cs) = (c # p) # ps"
    using split_on_eq_split [OF ws] sp by simp
  with Cons sp show ?thesis
    by (simp add: first_url_def spec_endpoint_def candidate_urls_def Let_def)
qed

lemma map_filter_as_map:
  "List.map_filter (\<lambda>x. if P x then Some (f x) else None) xs = map f (filter P xs)"
  by (induction xs) (simp_all add: List.map_filter_simps)

lemma map_filter_cong_set:
  "(\<And>x. x \<in> set xs \<Longrightarrow> f x = g x) \<Longrightarrow> List.map_filter f xs = List.map_filter g xs"
proof (induction xs)
  case Nil
  show ?case by (simp add: List.map_filter_simps)
next
  case (Cons a xs)
  have "f a = g a" by (rule Cons.prems) simp
  moreover have "List.map_filter f xs = List.map_filter g xs"
    by (rule Cons.IH) (simp add: Cons.prems)
  ultimately show ?case by (simp add: List.map_filter_simps split: option.splits)
qed

lemma enumerate_snd_mem: "x \<in> set (enumerate k xs) \<Longrightarrow> snd x \<in> set xs"
  by (induction xs arbitrary: k) auto

text \<open>
  C5 (as the specification states it, refuted): a record whose url text begins with a
  space has one candidate URL and yields no node; a record whose two candidates are
  separated by a tab yields a node whose endpoint is the whole text, not the first
  candidate. The code splits at the space character only and takes the piece before the
  first space.
\<close>

theorem parseNodesXml_first_candidate_counterexample:
  "candidate_urls (Element ''node'' [Element ''title'' [Text ''A''],
        Element ''url'' [Text '' https://a.org/tap/'']]) = [''https://a.org/tap/'']
   \<and> parseNodesXml (\<lambda>xmlText. Element ''nodes'' [Element ''node'' [Element ''title'' [Text ''A''],
        Element ''url'' [Text '' https://a.org/tap/'']]]) [] = []
   \<and> candidate_urls (Element ''node'' [Element ''title'' [Text ''B''],
        Element ''url'' [Text (''https://b.org/tap/'' @ [CHR 0x09] @ ''https://c.org/tap/'')]])
        = [''https://b.org/tap/'', ''https://c.org/tap/'']
   \<and> map tapEndpoint (parseNodesXml (\<lambda>xmlText. Element ''nodes'' [Element ''node'' [Element ''title'' [Text ''B''],
        Element ''url'' [Text (''https://b.org/tap/'' @ [CHR 0x09] @ ''https://c.org/tap/'')]]]) [])
        = [''https://b.org/tap/'' @ [CHR 0x09] @ ''https://c.org/tap/'']"
  by (simp add: candidate_urls_def textContent_or_def querySelector_def is_element_named_def
        is_whitespace_def parseNodesXml_def doc_querySelectorAll_def node_callback_def first_url_def
        endsWith_def Let_def)

text \<open>
  C5 (amended): for every document whose url texts separate the candidates by the space
  character only and do not begin with a space, \<open>parseNodesXml\<close> maps every record with
  at least one candidate URL to exactly one node, in document order and under the index of
  the record, whose endpoint is the first candidate with a slash appended if it lacks one;
  a record without a candidate yields no node. A document without records yields the empty
  list, which is a result and not an error.
\<close>

theorem parseNodesXml_first_candidate:
  assumes "\<forall>el \<in> set (doc_querySelectorAll (parser xmlText) ''node'').
             space_separated (textContent_or el ''url'' [])"
  shows "map (\<lambda>n. (id' n, tapEndpoint n)) (parseNodesXml parser xmlText)
         = List.map_filter
             (\<lambda>(index, el). map_option (\<lambda>u. (''node-'' @ nat_toString index, u)) (spec_endpoint el))
             (enumerate 0 (doc_querySelectorAll (parser xmlText) ''node''))
         \<and> (doc_querySelectorAll (parser xmlText) ''node'' = [] \<longrightarrow> parseNodesXml parser xmlText = [])"
proof -
  let ?els = "enumerate 0 (doc_querySelectorAll (parser xmlText) ''node'')"
  have "List.map_filter
             (\<lambda>(index, el). map_option (\<lambda>u. (''node-'' @ nat_toString index, u)) (spec_endpoint el)) ?els
        = List.map_filter (\<lambda>x. if (\<lambda>(index, el). first_url el \<noteq> []) x
             then Some ((\<lambda>(index, el). (''node-'' @ nat_toString index, first_url el)) x) else None) ?els"
  proof (rule map_filter_cong_set)
    fix x assume "x \<in> set ?els"
    then have "snd x \<in> set (doc_querySelectorAll (parser xmlText) ''node'')"
      by (rule enumerate_snd_mem)
    with assms have "space_separated (textContent_or (snd x) ''url'' [])" by blast
    then have e: "spec_endpoint (snd x) = (if first_url (snd x) \<noteq> [] then Some (first_url (snd x)) else None)"
      by (simp add: first_url_spec)
    show "(case x of (index, el) \<Rightarrow> map_option (\<lambda>u. (''node-'' @ nat_toString index, u)) (spec_endpoint el))
          = (if (case x of (index, el) \<Rightarrow> first_url el \<noteq> [])
             then Some (case x of (index, el) \<Rightarrow> (''node-'' @ nat_toString index, first_url el)) else None)"
      using e by (cases x) simp
  qed
  also have "\<dots> = map (\<lambda>(index, el). (''node-'' @ nat_toString index, first_url el))
                      (filter (\<lambda>(index, el). first_url el \<noteq> []) ?els)"
    by (rule map_filter_as_map)
  also have "\<dots> = map (\<lambda>n. (id' n, tapEndpoint n)) (parseNodesXml parser xmlText)"
    by (simp add: parseNodesXml_map_filter case_prod_beta comp_def)
  finally have "map (\<lambda>n. (id' n, tapEndpoint n)) (parseNodesXml parser xmlText)
         = List.map_filter
             (\<lambda>(index, el). map_option (\<lambda>u. (''node-'' @ nat_toString index, u)) (spec_endpoint el))
             ?els"
    by simp
  moreover have "doc_querySelectorAll (parser xmlText) ''node'' = [] \<longrightarrow> parseNodesXml parser xmlText = []"
    by (simp add: parseNodesXml_def Let_def)
  ultimately show ?thesis by blast
qed

theorem parseNodesXml_first_candidate_witness:
  "map (\<lambda>n. (id' n, tapEndpoint n))
     (parseNodesXml (\<lambda>xmlText. Element ''nodes''
        [Element ''node'' [Element ''title'' [Text ''A''],
                           Element ''url'' [Text ''https://a.org/tap https://b.org/tap/'']],
         Element ''node'' [Element ''title'' [Text ''B''], Element ''url'' []],
         Element ''node'' [Element ''title'' [Text ''C''], Element ''url'' [Text ''https://c.org/tap/'']]]) [])
   = [(''node-0'', ''https://a.org/tap/''), (''node-2'', ''https://c.org/tap/'')]"
proof -
  let ?doc = "Element ''nodes''
        [Element ''node'' [Element ''title'' [Text ''A''],
                           Element ''url'' [Text ''https://a.org/tap https://b.org/tap/'']],
         Element ''node'' [Element ''title'' [Text ''B''], Element ''url'' []],
         Element ''node'' [Element ''title'' [Text ''C''], Element ''url'' [Text ''https://c.org/tap/'']]]"
  have els: "doc_querySelectorAll ?doc ''node'' =
       [Element ''node'' [Element ''title'' [Text ''A''],
                           Element ''url'' [Text ''https://a.org/tap https://b.org/tap/'']],
         Element ''node'' [Element ''title'' [Text ''B''], Element ''url'' []],
         Element ''node'' [Element ''title'' [Text ''C''], Element ''url'' [Text ''https://c.org/tap/'']]]"
    by (simp add: doc_querySelectorAll_def is_element_named_def)
  have clean: "\<forall>el \<in> set (doc_querySelectorAll ((\<lambda>xmlText. ?doc) []) ''node'').
                 space_separated (textContent_or el ''url'' [])"
    unfolding els
    by (simp add: space_separated_def textContent_or_def querySelector_def is_element_named_def
          is_whitespace_def)
  have rhs: "List.map_filter
             (\<lambda>(index, el). map_option (\<lambda>u. (''node-'' @ nat_toString index, u)) (spec_endpoint el))
             (enumerate 0 (doc_querySelectorAll ((\<lambda>xmlText. ?doc) []) ''node''))
        = [(''node-0'', ''https://a.org/tap/''), (''node-2'', ''https://c.org/tap/'')]"
    unfolding els
    by (simp add: List.map_filter_simps spec_endpoint_def candidate_urls_def textContent_or_def
          querySelector_def is_element_named_def is_whitespace_def endsWith_def
          nat_toString.simps digit_char_def)
  show ?thesis
    using parseNodesXml_first_candidate [of "\<lambda>xmlText. ?doc" "[]", OF clean, THEN conjunct1]
    unfolding rhs .
qed

section \<open>Endpoints of the resolved nodes\<close>

text \<open>
  C8 (as the specification states it, refuted): the static strategy returns the records of
  its resource as they are, so an endpoint without a trailing slash stays without one; the
  live strategy appends the slash to whatever the url text holds, so a text that is not an
  absolute URL gives an endpoint that is not one.
\<close>

theorem resolver_endpoints_counterexample:
  "fetchNodes_static (\<lambda>text. Inr [\<lparr>id' = ''n1'', name = ''N'', tapEndpoint = ''https://x.org/tap''\<rparr>])
       (Resolves \<lparr>http_status = 200, statusText = ''OK'', headers = [], body = []\<rparr>)
     = Inr [\<lparr>id' = ''n1'', name = ''N'', tapEndpoint = ''https://x.org/tap''\<rparr>]
   \<and> \<not> endsWith ''https://x.org/tap'' ''/''
   \<and> fetchNodes_live (\<lambda>xmlText. Element ''nodes'' [Element ''node'' [Element ''title'' [Text ''A''],
          Element ''url'' [Text ''tap'']]])
       (Resolves \<lparr>http_status = 200, statusText = ''OK'', headers = [], body = []\<rparr>)
     = Inr [\<lparr>id' = ''node-0'', name = ''A'', tapEndpoint = ''tap/''\<rparr>]
   \<and> \<not> is_absolute_url ''tap/''"
  by (simp add: fetchNodes_static_def fetchNodes_live_def ok_def endsWith_def is_absolute_url_def
        parseNodesXml_def doc_querySelectorAll_def is_element_named_def node_callback_def
        first_url_def textContent_or_def querySelector_def nat_toString.simps digit_char_def Let_def)

text \<open>
  C8 (amended): every node produced by the live strategy has a non-empty endpoint that ends
  with a slash; the static strategy succeeds exactly with the list that the JSON reader
  gives for the body of a success response, unchanged.
\<close>

theorem resolver_endpoints:
  "(\<forall>ns. fetchNodes_live parser outcome = Inr ns
         \<longrightarrow> (\<forall>n \<in> set ns. tapEndpoint n \<noteq> [] \<and> endsWith (tapEndpoint n) ''/''))
   \<and> (\<forall>ns. fetchNodes_static json outcome = Inr ns
         \<longrightarrow> (\<exists>response. outcome = Resolves response \<and> ok response \<and> json (body response) = Inr ns))"
  by (auto simp: fetchNodes_live_def fetchNodes_static_def parseNodesXml_endpoint
           split: fetch_outcome.splits if_splits)

theorem resolver_endpoints_witness:
  "fetchNodes_live (\<lambda>xmlText. Element ''nodes'' [Element ''node'' [Element ''title'' [Text ''A''],
          Element ''url'' [Text ''https://a.org/tap https://b.org/tap/'']]])
       (Resolves \<lparr>http_status = 200, statusText = ''OK'', headers = [], body = []\<rparr>)
     = Inr [\<lparr>id' = ''node-0'', name = ''A'', tapEndpoint = ''https://a.org/tap/''\<rparr>]
   \<and> endsWith ''https://a.org/tap/'' ''/''"
proof -
  let ?parser = "\<lambda>xmlText::string. Element ''nodes'' [Element ''node'' [Element ''title'' [Text ''A''],
          Element ''url'' [Text ''https://a.org/tap https://b.org/tap/'']]]"
  let ?outcome = "Resolves \<lparr>http_status = 200, statusText = ''OK'', headers = [], body = []\<rparr>"
  have run: "fetchNodes_live ?parser ?outcome
     = Inr [\<lparr>id' = ''node-0'', name = ''A'', tapEndpoint = ''https://a.org/tap/''\<rparr>]"
    by (simp add: fetchNodes_live_def ok_def endsWith_def
        parseNodesXml_def doc_querySelectorAll_def is_element_named_def node_callback_def
        first_url_def textContent_or_def querySelector_def nat_toString.simps digit_char_def Let_def)
  from resolver_endpoints [of ?parser ?outcome "\<lambda>text. Inr []"] run
  have "endsWith ''https://a.org/tap/'' ''/''"
    by fastforce
  with run show ?thesis by simp
qed

section \<open>Identifiers of the resolved nodes\<close>

text \<open>
  C9: in every live resolution the identifier of a produced node is \<open>node-\<close> followed by
  the index of its record among all records of the document, and the identifiers of the
  produced nodes are pairwise distinct.
\<close>

theorem parseNodesXml_ids:
  "map id' (parseNodesXml parser xmlText)
     = map (\<lambda>(index, el). ''node-'' @ nat_toString index)
         (filter (\<lambda>(index, el). first_url el \<noteq> [])
            (enumerate 0 (doc_querySelectorAll (parser xmlText) ''node'')))
   \<and> distinct (map id' (parseNodesXml parser xmlText))"
proof (intro conjI)
  show "map id' (parseNodesXml parser xmlText)
     = map (\<lambda>(index, el). ''node-'' @ nat_toString index)
         (filter (\<lambda>(index, el). first_url el \<noteq> [])
            (enumerate 0 (doc_querySelectorAll (parser xmlText) ''node'')))"
    by (simp add: parseNodesXml_map_filter case_prod_beta comp_def)
  show "distinct (map id' (parseNodesXml parser xmlText))"
    by (rule parseNodesXml_distinct_ids)
qed

theorem parseNodesXml_ids_witness:
  "map id' (parseNodesXml (\<lambda>xmlText. Element ''nodes''
        [Element ''node'' [Element ''title'' [Text ''A''], Element ''url'' [Text ''https://a.org/tap/'']],
         Element ''node'' [Element ''title'' [Text ''B'']],
         Element ''node'' [Element ''title'' [Text ''C''], Element ''url'' [Text ''https://c.org/tap'']]]) [])
     = [''node-0'', ''node-2'']
   \<and> distinct [''node-0'', ''node-2'']"
proof -
  let ?doc = "Element ''nodes''
        [Element ''node'' [Element ''title'' [Text ''A''], Element ''url'' [Text ''https://a.org/tap/'']],
         Element ''node'' [Element ''title'' [Text ''B'']],
         Element ''node'' [Element ''title'' [Text ''C''], Element ''url'' [Text ''https://c.org/tap'']]]"
  have els: "doc_querySelectorAll ((\<lambda>xmlText. ?doc) []) ''node'' =
        [Element ''node'' [Element ''title'' [Text ''A''], Element ''url'' [Text ''https://a.org/tap/'']],
         Element ''node'' [Element ''title'' [Text ''B'']],
         Element ''node'' [Element ''title'' [Text ''C''], Element ''url'' [Text ''https://c.org/tap'']]]"
    by (simp add: doc_querySelectorAll_def is_element_named_def)
  have rhs: "map (\<lambda>(index, el). ''node-'' @ nat_toString index)
         (filter (\<lambda>(index, el). first_url el \<noteq> [])
            (enumerate 0 (doc_querySelectorAll ((\<lambda>xmlText. ?doc) []) ''node'')))
       = [''node-0'', ''node-2'']"
    unfolding els
    by (simp add: first_url_def textContent_or_def querySelector_def is_element_named_def endsWith_def
          nat_toString.simps digit_char_def)
  from parseNodesXml_ids [of "\<lambda>xmlText. ?doc" "[]"] show ?thesis
    unfolding rhs by simp
qed

section \<open>Records without a title\<close>

text \<open>
  C10: a record with a usable URL that has no \<open>title\<close> element, or an empty one, still
  yields its node, and the name of that node is \<open>Unknown\<close>.
\<close>

theorem parseNodesXml_unknown_title:
  assumes "index < length (doc_querySelectorAll (parser xmlText) ''node'')"
      and "el = doc_querySelectorAll (parser xmlText) ''node'' ! index"
      and "first_url el \<noteq> []"
      and "querySelector el ''title'' = None
           \<or> (\<exists>t. querySelector el ''title'' = Some t \<and> textContent t = [])"
  shows "\<lparr>id' = ''node-'' @ nat_toString index, name = ''Unknown'', tapEndpoint = first_url el\<rparr>
           \<in> set (parseNodesXml parser xmlText)
         \<and> (\<forall>n \<in> set (parseNodesXml parser xmlText).
               id' n = ''node-'' @ nat_toString index \<longrightarrow> name n = ''Unknown'')"
proof -
  let ?n = "\<lparr>id' = ''node-'' @ nat_toString index, name = ''Unknown'', tapEndpoint = first_url el\<rparr>"
  from assms(4) have title: "textContent_or el ''title'' ''Unknown'' = ''Unknown''"
    by (auto simp: textContent_or_def)
  from assms(1,2) have "(index, el) \<in> set (enumerate 0 (doc_querySelectorAll (parser xmlText) ''node''))"
    by (simp add: in_set_enumerate_eq)
  with assms(3) title have mem: "?n \<in> set (parseNodesXml parser xmlText)"
    unfolding parseNodesXml_set by force
  have "name n = ''Unknown''"
    if "n \<in> set (parseNodesXml parser xmlText)" and "id' n = ''node-'' @ nat_toString index" for n
  proof -
    have "inj_on id' (set (parseNodesXml parser xmlText))"
      using parseNodesXml_distinct_ids [of parser xmlText] by (simp add: distinct_map)
    moreover from that(2) have "id' n = id' ?n" by simp
    ultimately have "n = ?n"
      using that(1) mem by (rule inj_onD)
    then show ?thesis by simp
  qed
  with mem show ?thesis by blast
qed

theorem parseNodesXml_unknown_title_witness:
  "\<lparr>id' = ''node-1'', name = ''Unknown'', tapEndpoint = ''https://c.org/tap/''\<rparr>
     \<in> set (parseNodesXml (\<lambda>xmlText. Element ''nodes''
        [Element ''node'' [Element ''title'' [Text ''A''], Element ''url'' [Text ''https://a.org/tap/'']],
         Element ''node'' [Element ''url'' [Text ''https://c.org/tap/'']]]) [])"
proof -
  let ?doc = "Element ''nodes''
        [Element ''node'' [Element ''title'' [Text ''A''], Element ''url'' [Text ''https://a.org/tap/'']],
         Element ''node'' [Element ''url'' [Text ''https://c.org/tap/'']]]"
  let ?el = "Element ''node'' [Element ''url'' [Text ''https://c.org/tap/'']]"
  have els: "doc_querySelectorAll ((\<lambda>xmlText. ?doc) []) ''node'' =
        [Element ''node'' [Element ''title'' [Text ''A''], Element ''url'' [Text ''https://a.org/tap/'']], ?el]"
    by (simp add: doc_querySelectorAll_def is_element_named_def)
  have a1: "1 < length (doc_querySelectorAll ((\<lambda>xmlText. ?doc) []) ''node'')"
    unfolding els by simp
  have a2: "?el = doc_querySelectorAll ((\<lambda>xmlText. ?doc) []) ''node'' ! 1"
    unfolding els by simp
  have url: "first_url ?el = ''https://c.org/tap/''"
    by (simp add: first_url_def textContent_or_def querySelector_def is_element_named_def endsWith_def)
  have a3: "first_url ?el \<noteq> []"
    unfolding url by simp
  have a4: "querySelector ?el ''title'' = None
           \<or> (\<exists>t. querySelector ?el ''title'' = Some t \<and> textContent t = [])"
    by (simp add: querySelector_def is_element_named_def)
  have str: "nat_toString 1 = ''1''"
    by (simp add: nat_toString.simps digit_char_def)
  show ?thesis
    using parseNodesXml_unknown_title [where index = 1 and parser = "\<lambda>xmlText. ?doc"
        and xmlText = "[]" and el = ?el, OF a1 a2 a3 a4]
    unfolding url str by simp
qed

section \<open>The fan-out round\<close>

lemma queryNode_returns: "\<exists>r. queryNode fetch node params signal = Inr r"
proof (cases "fetch (buildDownloadUrl (tapEndpoint node) (buildQueryString params)) signal")
  case (Resolves response)
  then show ?thesis
    by (simp add: queryNode_def queryNode_try_def Let_def)
next
  case (Rejects err)
  then show ?thesis
    by (cases err) (simp_all add: queryNode_def queryNode_try_def queryNode_catch_def Let_def)
qed

lemma queryNode_projr: "queryNode fetch node params signal = Inr (projr (queryNode fetch node params signal))"
  using queryNode_returns [of fetch node params signal] by auto

lemma queryNode_nodeId: "queryNode fetch node params signal = Inr r \<Longrightarrow> nodeId r = id' node"
  by (auto simp: queryNode_def queryNode_try_def queryNode_catch_def Let_def
           split: fetch_outcome.splits js_value.splits if_splits sum.splits)

lemma projr_nodeId: "nodeId (projr (queryNode fetch node params signal)) = id' node"
  using queryNode_projr [of fetch node params signal] by (rule queryNode_nodeId)

lemma queryNode_status:
  "queryNode fetch node params signal = Inr r \<Longrightarrow> status r \<in> {Success, Error, Timeout}"
  by (auto simp: queryNode_def queryNode_try_def queryNode_catch_def Let_def
           split: fetch_outcome.splits js_value.splits if_splits sum.splits)

lemma queryNode_fetch_cong:
  "(\<And>url. fetch' url signal = fetch url signal)
     \<Longrightarrow> queryNode fetch' node params signal = queryNode fetch node params signal"
  by (simp add: queryNode_def queryNode_try_def Let_def)

subsection \<open>The promise of the whole round\<close>

lemma first_rejection_fulfilled: "first_rejection (map (\<lambda>i. (i, Fulfilled (f i))) xs) = None"
  by (induction xs) simp_all

lemma map_of_fulfilled:
  "i \<in> set xs \<Longrightarrow> map_of (map (\<lambda>i. (i, g i)) xs) i = Some (g i)"
  by (induction xs) auto

lemma map_of_missing:
  "i \<notin> set xs \<Longrightarrow> map_of (map (\<lambda>i. (i, g i)) xs) i = None"
  by (induction xs) auto

lemma those_all_Some: "(\<And>x. x \<in> set xs \<Longrightarrow> f x = Some (g x)) \<Longrightarrow> those (map f xs) = Some (map g xs)"
  by (induction xs) simp_all

lemma those_None: "None \<in> set xs \<Longrightarrow> those xs = None"
  by (induction xs) (auto split: option.splits)

lemma Promise_all_complete:
  assumes "set xs = {0..<n}"
  shows "Promise_all n (map (\<lambda>i. (i, Fulfilled (f i))) xs) = Some (Fulfilled (map f [0..<n]))"
proof -
  have "fulfilled_value (map (\<lambda>i. (i, Fulfilled (f i))) xs) i = Some (f i)" if "i \<in> set [0..<n]" for i
    using that assms by (simp add: fulfilled_value_def map_of_fulfilled)
  then have "those (map (fulfilled_value (map (\<lambda>i. (i, Fulfilled (f i))) xs)) [0..<n]) = Some (map f [0..<n])"
    by (rule those_all_Some)
  then show ?thesis
    by (simp add: Promise_all_def first_rejection_fulfilled)
qed

lemma Promise_all_pending:
  assumes "j < n" and "j \<notin> set xs"
  shows "Promise_all n (map (\<lambda>i. (i, Fulfilled (f i))) xs) = None"
proof -
  have "fulfilled_value (map (\<lambda>i. (i, Fulfilled (f i))) xs) j = None"
    using assms(2) by (simp add: fulfilled_value_def map_of_missing)
  moreover have "j \<in> set [0..<n]" using assms(1) by simp
  ultimately have "None \<in> set (map (fulfilled_value (map (\<lambda>i. (i, Fulfilled (f i))) xs)) [0..<n])"
    by (metis image_eqI set_map)
  then have "those (map (fulfilled_value (map (\<lambda>i. (i, Fulfilled (f i))) xs)) [0..<n]) = None"
    by (rule those_None)
  then show ?thesis
    by (simp add: Promise_all_def first_rejection_fulfilled)
qed

lemma missing_index:
  assumes "distinct xs" and "set xs \<subseteq> {0..<n}" and "length xs < n"
  shows "\<exists>j<n. j \<notin> set xs"
proof (rule ccontr)
  assume "\<not> (\<exists>j<n. j \<notin> set xs)"
  then have "{0..<n} \<subseteq> set xs" by auto
  with assms(2) have "set xs = {0..<n}" by auto
  then have "card (set xs) = n" by simp
  with assms(1) have "length xs = n" by (simp add: distinct_card)
  with assms(3) show False by simp
qed

lemma perm_map_nth:
  assumes "distinct schedule" and "set schedule = {0..<length xs}"
  shows "set (map ((!) xs) schedule) = set xs"
    and "distinct xs \<Longrightarrow> distinct (map ((!) xs) schedule)"
proof -
  have "set (map ((!) xs) schedule) = set (map ((!) xs) [0..<length xs])"
    using assms(2) by simp
  then show "set (map ((!) xs) schedule) = set xs"
    by (simp only: map_nth)
  assume d: "distinct xs"
  have "inj_on ((!) xs) (set schedule)"
    using assms(2) d by (auto simp: inj_on_def nth_eq_iff_index_eq)
  with assms(1) show "distinct (map ((!) xs) schedule)"
    by (simp add: distinct_map)
qed

subsection \<open>One task, and a run of tasks\<close>

lemma sink_effect_apply:
  "sink_effect onProgress (a, r) (h, s)
     = (fst (onProgress a (h(a := r)) s), fst (snd (onProgress a (h(a := r)) s)))"
  by (simp add: sink_effect_def split: prod.splits)

lemma settle_step:
  assumes "i < length nodes" and "i \<notin> set (map fst (promises st))"
  shows "settle net params onProgress nodes i st
         = \<lparr>sink_state = fst (snd (onProgress i ((objects st)
                (i := projr (queryNode (fetch_with_timer net) (nodes ! i) params i))) (sink_state st))),
            objects = fst (onProgress i ((objects st)
                (i := projr (queryNode (fetch_with_timer net) (nodes ! i) params i))) (sink_state st)),
            calls = calls st @ [projr (queryNode (fetch_with_timer net) (nodes ! i) params i)],
            promises = promises st @
              [(i, case snd (snd (onProgress i ((objects st)
                      (i := projr (queryNode (fetch_with_timer net) (nodes ! i) params i))) (sink_state st))) of
                     None \<Rightarrow> Fulfilled i
                   | Some err \<Rightarrow> Rejected err)]\<rparr>"
proof -
  let ?r = "projr (queryNode (fetch_with_timer net) (nodes ! i) params i)"
  have q: "queryNode (fetch_with_timer net) (nodes ! i) params i = Inr ?r"
    by (rule queryNode_projr)
  obtain h' s' e where sink: "onProgress i ((objects st)(i := ?r)) (sink_state st) = (h', s', e)"
    by (cases "onProgress i ((objects st)(i := ?r)) (sink_state st)") auto
  have "node_task net params onProgress (nodes ! i) i (objects st) (sink_state st)
          = (case e of None \<Rightarrow> Fulfilled i | Some err \<Rightarrow> Rejected err, [?r], h', s')"
    unfolding node_task_def by (subst q) (simp add: sink split: option.splits)
  with assms show ?thesis
    by (simp add: settle_def sink)
qed

lemma fold_settle_general:
  "distinct schedule \<Longrightarrow> set schedule \<subseteq> {0..<length nodes}
     \<Longrightarrow> set schedule \<inter> set (map fst (promises st)) = {}
     \<Longrightarrow> map fst (promises (fold (settle net params onProgress nodes) schedule st))
           = map fst (promises st) @ schedule
         \<and> calls (fold (settle net params onProgress nodes) schedule st)
           = calls st @ map (\<lambda>i. projr (queryNode (fetch_with_timer net) (nodes ! i) params i)) schedule
         \<and> (objects (fold (settle net params onProgress nodes) schedule st),
            sink_state (fold (settle net params onProgress nodes) schedule st))
           = fold (sink_effect onProgress)
               (map (\<lambda>i. (i, projr (queryNode (fetch_with_timer net) (nodes ! i) params i))) schedule)
               (objects st, sink_state st)"
proof (induction schedule arbitrary: st)
  case Nil
  show ?case by simp
next
  case (Cons i schedule)
  let ?R = "\<lambda>i. projr (queryNode (fetch_with_timer net) (nodes ! i) params i)"
  let ?st = "settle net params onProgress nodes i st"
  from Cons.prems have i: "i < length nodes" "i \<notin> set (map fst (promises st))"
    by auto
  have st: "map fst (promises ?st) = map fst (promises st) @ [i]"
      "calls ?st = calls st @ [?R i]"
      "(objects ?st, sink_state ?st) = sink_effect onProgress (i, ?R i) (objects st, sink_state st)"
    by (simp_all add: settle_step [OF i] sink_effect_apply)
  from Cons.prems have "distinct schedule" "set schedule \<subseteq> {0..<length nodes}"
    "set schedule \<inter> set (map fst (promises ?st)) = {}"
    by (auto simp: st)
  from Cons.IH [OF this] show ?case
    by (simp add: st)
qed

lemma fold_settle_returns:
  assumes sink: "\<forall>a h s. snd (snd (onProgress a h s)) = None"
  shows "distinct schedule \<Longrightarrow> set schedule \<subseteq> {0..<length nodes}
     \<Longrightarrow> set schedule \<inter> set (map fst (promises st)) = {}
     \<Longrightarrow> promises (fold (settle net params onProgress nodes) schedule st)
           = promises st @ map (\<lambda>i. (i, Fulfilled i)) schedule"
proof (induction schedule arbitrary: st)
  case Nil
  show ?case by simp
next
  case (Cons i schedule)
  let ?st = "settle net params onProgress nodes i st"
  from Cons.prems have i: "i < length nodes" "i \<notin> set (map fst (promises st))"
    by auto
  have st: "promises ?st = promises st @ [(i, Fulfilled i)]"
    by (simp add: settle_step [OF i] sink)
  from Cons.prems have "distinct schedule" "set schedule \<subseteq> {0..<length nodes}"
    "set schedule \<inter> set (map fst (promises ?st)) = {}"
    by (auto simp: st)
  from Cons.IH [OF this] show ?case
    by (simp add: st)
qed

lemma fold_settle_unchanged:
  assumes sink: "\<forall>a h s. fst (onProgress a h s) = h"
  shows "distinct schedule \<Longrightarrow> set schedule \<subseteq> {0..<length nodes}
     \<Longrightarrow> set schedule \<inter> set (map fst (promises st)) = {}
     \<Longrightarrow> objects (fold (settle net params onProgress nodes) schedule st)
           = (\<lambda>a. if a \<in> set schedule
                   then projr (queryNode (fetch_with_timer net) (nodes ! a) params a)
                   else objects st a)"
proof (induction schedule arbitrary: st)
  case Nil
  show ?case by simp
next
  case (Cons i schedule)
  let ?R = "\<lambda>i. projr (queryNode (fetch_with_timer net) (nodes ! i) params i)"
  let ?st = "settle net params onProgress nodes i st"
  from Cons.prems have i: "i < length nodes" "i \<notin> set (map fst (promises st))"
    by auto
  have st: "objects ?st = (objects st)(i := ?R i)"
      "map fst (promises ?st) = map fst (promises st) @ [i]"
    by (simp_all add: settle_step [OF i] sink)
  from Cons.prems have "distinct schedule" "set schedule \<subseteq> {0..<length nodes}"
    "set schedule \<inter> set (map fst (promises ?st)) = {}"
    by (auto simp: st)
  from Cons.IH [OF this] show ?case
    by (auto simp: st fun_eq_iff)
qed

lemma queryAllNodes_state:
  assumes "distinct schedule" and "set schedule \<subseteq> {0..<length nodes}"
  shows "calls (snd (queryAllNodes nodes params onProgress net schedule s0))
         = map (\<lambda>i. projr (queryNode (fetch_with_timer net) (nodes ! i) params i)) schedule"
    and "(objects (snd (queryAllNodes nodes params onProgress net schedule s0)),
          sink_state (snd (queryAllNodes nodes params onProgress net schedule s0)))
         = fold (sink_effect onProgress)
             (map (\<lambda>i. (i, projr (queryNode (fetch_with_timer net) (nodes ! i) params i))) schedule)
             (empty_heap, s0)"
  using fold_settle_general [OF assms,
      of "\<lparr>sink_state = s0, objects = empty_heap, calls = [], promises = []\<rparr>" net params onProgress]
  by (simp_all add: queryAllNodes_def Let_def)

lemma queryAllNodes_promise:
  assumes sink: "\<forall>a h s. snd (snd (onProgress a h s)) = None"
      and "distinct schedule" and "set schedule \<subseteq> {0..<length nodes}"
  shows "fst (queryAllNodes nodes params onProgress net schedule s0)
         = map_option (read_all (objects (snd (queryAllNodes nodes params onProgress net schedule s0))))
             (Promise_all (length nodes) (map (\<lambda>i. (i, Fulfilled i)) schedule))"
  using fold_settle_returns [OF sink assms(2,3),
      of "\<lparr>sink_state = s0, objects = empty_heap, calls = [], promises = []\<rparr>" net params]
  by (simp add: queryAllNodes_def Let_def)

lemma queryAllNodes_objects:
  assumes sink: "\<forall>a h s. fst (onProgress a h s) = h"
      and "distinct schedule" and "set schedule \<subseteq> {0..<length nodes}"
  shows "a \<in> set schedule \<Longrightarrow>
         objects (snd (queryAllNodes nodes params onProgress net schedule s0)) a
         = projr (queryNode (fetch_with_timer net) (nodes ! a) params a)"
  using fold_settle_unchanged [OF sink assms(2,3),
      of "\<lparr>sink_state = s0, objects = empty_heap, calls = [], promises = []\<rparr>" net params]
  by (simp add: queryAllNodes_def Let_def)

lemma zip_schedule_calls: "zip xs (map f xs) = map (\<lambda>x. (x, f x)) xs"
  by (induction xs) simp_all

lemma queryAllNodes_fulfilled:
  assumes sink: "\<forall>a h s. snd (snd (onProgress a h s)) = None"
      and sched: "distinct schedule" "set schedule = {0..<length nodes}"
  shows "fst (queryAllNodes nodes params onProgress net schedule s0)
         = Some (Fulfilled (map (objects (snd (queryAllNodes nodes params onProgress net schedule s0)))
                              [0..<length nodes]))"
proof -
  from sched(2) have sub: "set schedule \<subseteq> {0..<length nodes}" by simp
  have "Promise_all (length nodes) (map (\<lambda>i. (i, Fulfilled i)) schedule)
          = Some (Fulfilled (map (\<lambda>i. i) [0..<length nodes]))"
    using sched(2) by (rule Promise_all_complete)
  then show ?thesis
    by (simp add: queryAllNodes_promise [OF sink sched(1) sub] read_all_def)
qed

lemma queryAllNodes_results:
  assumes returns: "\<forall>a h s. snd (snd (onProgress a h s)) = None"
      and unchanged: "\<forall>a h s. fst (onProgress a h s) = h"
      and sched: "distinct schedule" "set schedule = {0..<length nodes}"
  shows "fst (queryAllNodes nodes params onProgress net schedule s0)
         = Some (Fulfilled (map (\<lambda>i. projr (queryNode (fetch_with_timer net) (nodes ! i) params i))
                              [0..<length nodes]))"
proof -
  from sched(2) have sub: "set schedule \<subseteq> {0..<length nodes}" by simp
  have "map (objects (snd (queryAllNodes nodes params onProgress net schedule s0))) [0..<length nodes]
          = map (\<lambda>i. projr (queryNode (fetch_with_timer net) (nodes ! i) params i)) [0..<length nodes]"
  proof (rule map_cong [OF refl])
    fix a assume "a \<in> set [0..<length nodes]"
    with sched(2) have "a \<in> set schedule" by simp
    then show "objects (snd (queryAllNodes nodes params onProgress net schedule s0)) a
                 = projr (queryNode (fetch_with_timer net) (nodes ! a) params a)"
      by (rule queryAllNodes_objects [OF unchanged sched(1) sub])
  qed
  then show ?thesis
    by (simp only: queryAllNodes_fulfilled [OF returns sched])
qed

text \<open>
  C1 (as the specification states it, refuted): with two nodes with distinct ids, a sink
  that throws leaves the promise of \<open>queryAllNodes\<close> rejected, so no sequence is returned;
  and a sink that writes to the object it is given changes the returned sequence, whose
  \<open>nodeId\<close>s then are not those of the nodes.
\<close>

theorem queryAllNodes_progress_and_order_counterexample:
  "fst (queryAllNodes
       [\<lparr>id' = ''node-0'', name = ''A'', tapEndpoint = ''https://a.org/tap/''\<rparr>,
        \<lparr>id' = ''node-1'', name = ''B'', tapEndpoint = ''https://b.org/tap/''\<rparr>]
       \<lparr>wavelengthMin = Whole False 4000, wavelengthMax = Whole False 5000\<rparr>
       (\<lambda>a h (count::nat). (h, Suc count, Some (ErrorObj ''TypeError'' ''sink failed'')))
       (\<lambda>url i. Silent) [1, 0] 0)
     = Some (Rejected (ErrorObj ''TypeError'' ''sink failed''))
   \<and> fst (queryAllNodes
       [\<lparr>id' = ''node-0'', name = ''A'', tapEndpoint = ''https://a.org/tap/''\<rparr>,
        \<lparr>id' = ''node-1'', name = ''B'', tapEndpoint = ''https://b.org/tap/''\<rparr>]
       \<lparr>wavelengthMin = Whole False 4000, wavelengthMax = Whole False 5000\<rparr>
       (\<lambda>a h (count::nat). (h(a := (h a)\<lparr>nodeId := ''seen''\<rparr>), Suc count, None))
       (\<lambda>url i. Silent) [1, 0] 0)
     = Some (Fulfilled
         [\<lparr>nodeId = ''seen'', nodeName = ''A'', status = Timeout,
           numSpecies = None, numStates = None, numTransitions = None,
           downloadUrl = None, error = Some ''Request timeout''\<rparr>,
          \<lparr>nodeId = ''seen'', nodeName = ''B'', status = Timeout,
           numSpecies = None, numStates = None, numTransitions = None,
           downloadUrl = None, error = Some ''Request timeout''\<rparr>])"
  by (simp add: queryAllNodes_def settle_def node_task_def queryNode_def queryNode_try_def
        queryNode_catch_def fetch_with_timer_def abort_error_def Promise_all_def read_all_def
        fulfilled_value_def Let_def)

text \<open>
  C1 (amended): for nodes with pairwise distinct ids, once every task has settled, in
  whatever order, the sink has been called exactly once per node: as many calls as nodes,
  with pairwise distinct \<open>nodeId\<close>s that are exactly the ids of the nodes, and the sink
  is left as these calls, made in that order, leave it. When the sink returns normally
  from its calls and does not write to the objects it is given, the promise of
  \<open>queryAllNodes\<close> is fulfilled with as many results as nodes, the result at index \<open>i\<close>
  carrying the id of \<open>nodes[i]\<close>, and the sink has seen these results in the order of
  settlement.
\<close>

theorem queryAllNodes_progress_and_order:
  assumes ids: "distinct (map id' nodes)"
      and sched: "distinct schedule" "set schedule = {0..<length nodes}"
  shows "length (calls (snd (queryAllNodes nodes params onProgress net schedule s0))) = length nodes
       \<and> distinct (map nodeId (calls (snd (queryAllNodes nodes params onProgress net schedule s0))))
       \<and> set (map nodeId (calls (snd (queryAllNodes nodes params onProgress net schedule s0))))
           = set (map id' nodes)
       \<and> (objects (snd (queryAllNodes nodes params onProgress net schedule s0)),
          sink_state (snd (queryAllNodes nodes params onProgress net schedule s0)))
           = fold (sink_effect onProgress)
               (zip schedule (calls (snd (queryAllNodes nodes params onProgress net schedule s0))))
               (empty_heap, s0)
       \<and> ((\<forall>a h s. fst (onProgress a h s) = h \<and> snd (snd (onProgress a h s)) = None) \<longrightarrow>
            (\<exists>rs. fst (queryAllNodes nodes params onProgress net schedule s0) = Some (Fulfilled rs)
                 \<and> length rs = length nodes
                 \<and> map nodeId rs = map id' nodes
                 \<and> (\<forall>i<length nodes. nodeId (rs ! i) = id' (nodes ! i))
                 \<and> calls (snd (queryAllNodes nodes params onProgress net schedule s0))
                     = map (\<lambda>i. rs ! i) schedule))"
proof -
  let ?R = "\<lambda>i. projr (queryNode (fetch_with_timer net) (nodes ! i) params i)"
  let ?Q = "queryAllNodes nodes params onProgress net schedule s0"
  from sched have sub: "set schedule \<subseteq> {0..<length nodes}" by simp
  have calls: "calls (snd ?Q) = map ?R schedule"
    using sched(1) sub by (rule queryAllNodes_state(1))
  have len: "length schedule = length nodes"
    using sched by (metis distinct_card card_atLeastLessThan diff_zero)
  have ids_calls: "map nodeId (calls (snd ?Q)) = map ((!) (map id' nodes)) schedule"
    unfolding calls using sub by (auto simp: projr_nodeId)
  have sched': "set schedule = {0..<length (map id' nodes)}"
    using sched(2) by simp
  have c1: "length (calls (snd ?Q)) = length nodes"
    by (simp add: calls len)
  have c2: "distinct (map nodeId (calls (snd ?Q)))"
    unfolding ids_calls using sched(1) sched' ids by (rule perm_map_nth(2))
  have c3: "set (map nodeId (calls (snd ?Q))) = set (map id' nodes)"
    unfolding ids_calls using sched(1) sched' by (rule perm_map_nth(1))
  have c4: "(objects (snd ?Q), sink_state (snd ?Q))
              = fold (sink_effect onProgress) (zip schedule (calls (snd ?Q))) (empty_heap, s0)"
    unfolding calls zip_schedule_calls
    using sched(1) sub by (rule queryAllNodes_state(2))
  have c5: "\<exists>rs. fst ?Q = Some (Fulfilled rs) \<and> length rs = length nodes
                 \<and> map nodeId rs = map id' nodes
                 \<and> (\<forall>i<length nodes. nodeId (rs ! i) = id' (nodes ! i))
                 \<and> calls (snd ?Q) = map (\<lambda>i. rs ! i) schedule"
    if sink: "\<forall>a h s. fst (onProgress a h s) = h \<and> snd (snd (onProgress a h s)) = None"
  proof -
    from sink have returns: "\<forall>a h s. snd (snd (onProgress a h s)) = None"
      and unchanged: "\<forall>a h s. fst (onProgress a h s) = h"
      by simp_all
    have res: "fst ?Q = Some (Fulfilled (map ?R [0..<length nodes]))"
      using returns unchanged sched by (rule queryAllNodes_results)
    have nth: "map ?R [0..<length nodes] ! i = ?R i" if "i < length nodes" for i
      using that by (simp del: upt_Suc)
    have r1: "length (map ?R [0..<length nodes]) = length nodes"
      by simp
    have r2: "map nodeId (map ?R [0..<length nodes]) = map id' nodes"
      by (rule nth_equalityI) (simp_all add: projr_nodeId del: upt_Suc)
    have r3: "\<forall>i<length nodes. nodeId (map ?R [0..<length nodes] ! i) = id' (nodes ! i)"
      by (simp add: nth projr_nodeId del: upt_Suc)
    have r4: "calls (snd ?Q) = map (\<lambda>i. map ?R [0..<length nodes] ! i) schedule"
      unfolding calls
    proof (rule map_cong [OF refl])
      fix i assume "i \<in> set schedule"
      with sub have "i < length nodes" by auto
      then show "?R i = map ?R [0..<length nodes] ! i"
        by (simp only: nth)
    qed
    from res r1 r2 r3 r4 show ?thesis
      by blast
  qed
  from c1 c2 c3 c4 c5 show ?thesis by blast
qed

theorem queryAllNodes_progress_and_order_witness:
  "length (calls (snd (queryAllNodes
       [\<lparr>id' = ''node-0'', name = ''A'', tapEndpoint = ''https://a.org/tap/''\<rparr>,
        \<lparr>id' = ''node-1'', name = ''B'', tapEndpoint = ''https://b.org/tap/''\<rparr>,
        \<lparr>id' = ''node-2'', name = ''C'', tapEndpoint = ''https://c.org/tap/''\<rparr>]
       \<lparr>wavelengthMin = Whole False 4000, wavelengthMax = Whole False 5000\<rparr>
       (\<lambda>a h (count::nat). (h, Suc count, None))
       (\<lambda>url i. if i = 0 then Responds \<lparr>http_status = 200, statusText = ''OK'',
                        headers = [(''VAMDC-COUNT-SPECIES'', ''12'')], body = []\<rparr>
                  else if i = 1 then Silent else Fails NonError)
       [2, 0, 1] 0))) = 3
   \<and> (\<exists>rs. fst (queryAllNodes
       [\<lparr>id' = ''node-0'', name = ''A'', tapEndpoint = ''https://a.org/tap/''\<rparr>,
        \<lparr>id' = ''node-1'', name = ''B'', tapEndpoint = ''https://b.org/tap/''\<rparr>,
        \<lparr>id' = ''node-2'', name = ''C'', tapEndpoint = ''https://c.org/tap/''\<rparr>]
       \<lparr>wavelengthMin = Whole False 4000, wavelengthMax = Whole False 5000\<rparr>
       (\<lambda>a h (count::nat). (h, Suc count, None))
       (\<lambda>url i. if i = 0 then Responds \<lparr>http_status = 200, statusText = ''OK'',
                        headers = [(''VAMDC-COUNT-SPECIES'', ''12'')], body = []\<rparr>
                  else if i = 1 then Silent else Fails NonError)
       [2, 0, 1] 0) = Some (Fulfilled rs)
      \<and> map nodeId rs = [''node-0'', ''node-1'', ''node-2''])"
proof -
  let ?nodes = "[\<lparr>id' = ''node-0'', name = ''A'', tapEndpoint = ''https://a.org/tap/''\<rparr>,
        \<lparr>id' = ''node-1'', name = ''B'', tapEndpoint = ''https://b.org/tap/''\<rparr>,
        \<lparr>id' = ''node-2'', name = ''C'', tapEndpoint = ''https://c.org/tap/''\<rparr>]"
  let ?net = "\<lambda>(url::string) (i::nat). if i = 0 then Responds \<lparr>http_status = 200, statusText = ''OK'',
                        headers = [(''VAMDC-COUNT-SPECIES'', ''12'')], body = []\<rparr>
                  else if i = 1 then Silent else Fails NonError"
  let ?params = "\<lparr>wavelengthMin = Whole False 4000, wavelengthMax = Whole False 5000\<rparr>"
  let ?sink = "\<lambda>(a::ref) (h::heap) (count::nat). (h, Suc count, None :: js_value option)"
  let ?Q = "queryAllNodes ?nodes ?params ?sink ?net [2, 0, 1] 0"
  have ids: "distinct (map id' ?nodes)" by simp
  have d: "distinct [2, 0, 1 :: nat]" by simp
  have s: "set [2, 0, 1 :: nat] = {0..<length ?nodes}" by auto
  have sink: "\<forall>a h s. fst (?sink a h s) = h \<and> snd (snd (?sink a h s)) = None"
    by simp
  note t = queryAllNodes_progress_and_order [OF ids d s, of ?params ?sink ?net 0]
  from t have n: "length (calls (snd ?Q)) = length ?nodes"
    by (rule conjunct1)
  from t [THEN conjunct2, THEN conjunct2, THEN conjunct2, THEN conjunct2, THEN mp, OF sink]
  obtain rs where "fst ?Q = Some (Fulfilled rs)" "map nodeId rs = map id' ?nodes"
    by blast
  then have "\<exists>rs. fst ?Q = Some (Fulfilled rs) \<and> map nodeId rs = [''node-0'', ''node-1'', ''node-2'']"
    by simp
  with n show ?thesis
    by simp
qed

text \<open>
  C6 (as the specification states it, refuted): with a sink that throws, the promise of
  \<open>queryAllNodes\<close> is rejected, and already when the first of two tasks has settled; and
  with a sink that, given a failed result, writes to the object of node 0, the result of
  node 0 depends on whether the probe of node 1 fails.
\<close>

theorem queryAllNodes_never_fails_counterexample:
  "fst (queryAllNodes
       [\<lparr>id' = ''node-0'', name = ''A'', tapEndpoint = ''https://a.org/tap/''\<rparr>,
        \<lparr>id' = ''node-1'', name = ''B'', tapEndpoint = ''https://b.org/tap/''\<rparr>]
       \<lparr>wavelengthMin = Whole False 4000, wavelengthMax = Whole False 5000\<rparr>
       (\<lambda>a h (u::unit). (h, u, Some (ErrorObj ''TypeError'' ''sink failed'')))
       (\<lambda>url i. Fails NonError) [0] ())
     = Some (Rejected (ErrorObj ''TypeError'' ''sink failed''))
   \<and> map_option (\<lambda>p. case p of Fulfilled rs \<Rightarrow> map status rs | Rejected err \<Rightarrow> [])
        (fst (queryAllNodes
          [\<lparr>id' = ''node-0'', name = ''A'', tapEndpoint = ''https://a.org/tap/''\<rparr>,
           \<lparr>id' = ''node-1'', name = ''B'', tapEndpoint = ''https://b.org/tap/''\<rparr>]
          \<lparr>wavelengthMin = Whole False 4000, wavelengthMax = Whole False 5000\<rparr>
          (\<lambda>a h (u::unit). (if status (h a) = Error then h(0 := (h 0)\<lparr>status := Error\<rparr>) else h,
                              u, None))
          (\<lambda>url i. if i = 0 then Responds \<lparr>http_status = 200, statusText = ''OK'',
                                     headers = [], body = []\<rparr>
                     else Fails NonError)
          [0, 1] ()))
     = Some [Error, Error]
   \<and> map_option (\<lambda>p. case p of Fulfilled rs \<Rightarrow> map status rs | Rejected err \<Rightarrow> [])
        (fst (queryAllNodes
          [\<lparr>id' = ''node-0'', name = ''A'', tapEndpoint = ''https://a.org/tap/''\<rparr>,
           \<lparr>id' = ''node-1'', name = ''B'', tapEndpoint = ''https://b.org/tap/''\<rparr>]
          \<lparr>wavelengthMin = Whole False 4000, wavelengthMax = Whole False 5000\<rparr>
          (\<lambda>a h (u::unit). (if status (h a) = Error then h(0 := (h 0)\<lparr>status := Error\<rparr>) else h,
                              u, None))
          (\<lambda>url i. Responds \<lparr>http_status = 200, statusText = ''OK'', headers = [], body = []\<rparr>)
          [0, 1] ()))
     = Some [Success, Success]"
  by (simp add: queryAllNodes_def settle_def node_task_def queryNode_def queryNode_try_def
        queryNode_catch_def fetch_with_timer_def abort_error_def Promise_all_def read_all_def
        fulfilled_value_def ok_def Let_def)

text \<open>
  C6 (amended): with a sink that returns normally from its calls, for every list of nodes
  and whatever the network does for each of them, \<open>queryAllNodes\<close> is fulfilled once every
  task has settled, with one result per node, and it is still pending while fewer tasks
  than nodes have settled. When the sink, in addition, does not write to the objects it is
  given, the result of a node is the terminal result that \<open>queryNode\<close> returns for that
  node, and it is the same under any other behaviour of the network for the other nodes
  and any other order of settlement.
\<close>

theorem queryAllNodes_never_fails:
  assumes returns: "\<forall>a h s. snd (snd (onProgress a h s)) = None"
      and sched: "distinct schedule" "set schedule = {0..<length nodes}"
  shows "\<exists>rs. fst (queryAllNodes nodes params onProgress net schedule s0) = Some (Fulfilled rs)
           \<and> length rs = length nodes
           \<and> (\<forall>k<length nodes.
                 fst (queryAllNodes nodes params onProgress net (take k schedule) s0) = None)
           \<and> ((\<forall>a h s. fst (onProgress a h s) = h) \<longrightarrow>
                (\<forall>i<length nodes.
                   queryNode (fetch_with_timer net) (nodes ! i) params i = Inr (rs ! i)
                   \<and> status (rs ! i) \<in> {Success, Error, Timeout})
                \<and> (\<forall>net' schedule' rs'.
                     distinct schedule' \<and> set schedule' = {0..<length nodes}
                     \<and> fst (queryAllNodes nodes params onProgress net' schedule' s0)
                         = Some (Fulfilled rs')
                     \<longrightarrow> (\<forall>i<length nodes. (\<forall>url. net' url i = net url i) \<longrightarrow> rs' ! i = rs ! i)))"
proof -
  let ?R = "\<lambda>net i. projr (queryNode (fetch_with_timer net) (nodes ! i) params i)"
  let ?Q = "queryAllNodes nodes params onProgress net schedule s0"
  let ?rs = "map (objects (snd ?Q)) [0..<length nodes]"
  from sched have sub: "set schedule \<subseteq> {0..<length nodes}" by simp
  have len: "length schedule = length nodes"
    using sched by (metis distinct_card card_atLeastLessThan diff_zero)
  have p1: "fst ?Q = Some (Fulfilled ?rs)"
    using returns sched by (rule queryAllNodes_fulfilled)
  have p2: "length ?rs = length nodes"
    by simp
  have p3: "\<forall>k<length nodes.
              fst (queryAllNodes nodes params onProgress net (take k schedule) s0) = None"
  proof (intro allI impI)
    fix k assume k: "k < length nodes"
    have d: "distinct (take k schedule)"
      using sched(1) by (rule distinct_take)
    have s: "set (take k schedule) \<subseteq> {0..<length nodes}"
      using sub set_take_subset [of k schedule] by blast
    have "length (take k schedule) < length nodes"
      using k len by simp
    with d s obtain j where j: "j < length nodes" "j \<notin> set (take k schedule)"
      using missing_index by blast
    have "Promise_all (length nodes) (map (\<lambda>i. (i, Fulfilled i)) (take k schedule)) = None"
      using j by (rule Promise_all_pending)
    then show "fst (queryAllNodes nodes params onProgress net (take k schedule) s0) = None"
      by (simp add: queryAllNodes_promise [OF returns d s])
  qed
  have p4: "(\<forall>i<length nodes.
                   queryNode (fetch_with_timer net) (nodes ! i) params i = Inr (?rs ! i)
                   \<and> status (?rs ! i) \<in> {Success, Error, Timeout})
                \<and> (\<forall>net' schedule' rs'.
                     distinct schedule' \<and> set schedule' = {0..<length nodes}
                     \<and> fst (queryAllNodes nodes params onProgress net' schedule' s0)
                         = Some (Fulfilled rs')
                     \<longrightarrow> (\<forall>i<length nodes. (\<forall>url. net' url i = net url i) \<longrightarrow> rs' ! i = ?rs ! i))"
    if unchanged: "\<forall>a h s. fst (onProgress a h s) = h"
  proof -
    have result: "fst (queryAllNodes nodes params onProgress net' schedule' s0)
                    = Some (Fulfilled (map (?R net') [0..<length nodes]))"
      if "distinct schedule'" and "set schedule' = {0..<length nodes}" for net' schedule'
      using returns unchanged that by (rule queryAllNodes_results)
    from p1 result [OF sched] have rs: "?rs = map (?R net) [0..<length nodes]"
      by simp
    have nth: "map (?R net') [0..<length nodes] ! i = ?R net' i" if "i < length nodes" for i net'
      using that by (simp del: upt_Suc)
    have a: "\<forall>i<length nodes. queryNode (fetch_with_timer net) (nodes ! i) params i = Inr (?rs ! i)
                 \<and> status (?rs ! i) \<in> {Success, Error, Timeout}"
    proof (intro allI impI)
      fix i assume i: "i < length nodes"
      have q: "queryNode (fetch_with_timer net) (nodes ! i) params i = Inr (?R net i)"
        by (rule queryNode_projr)
      then have "status (?R net i) \<in> {Success, Error, Timeout}"
        by (rule queryNode_status)
      with q show "queryNode (fetch_with_timer net) (nodes ! i) params i = Inr (?rs ! i)
                 \<and> status (?rs ! i) \<in> {Success, Error, Timeout}"
        unfolding rs by (simp only: nth [OF i])
    qed
    have b: "\<forall>net' schedule' rs'.
                 distinct schedule' \<and> set schedule' = {0..<length nodes}
                 \<and> fst (queryAllNodes nodes params onProgress net' schedule' s0) = Some (Fulfilled rs')
                 \<longrightarrow> (\<forall>i<length nodes. (\<forall>url. net' url i = net url i) \<longrightarrow> rs' ! i = ?rs ! i)"
    proof (intro allI impI)
      fix net' schedule' rs' i
      assume h: "distinct schedule' \<and> set schedule' = {0..<length nodes}
                 \<and> fst (queryAllNodes nodes params onProgress net' schedule' s0) = Some (Fulfilled rs')"
        and i: "i < length nodes" and same: "\<forall>url. net' url i = net url i"
      from h result [of schedule' net'] have rs': "rs' = map (?R net') [0..<length nodes]"
        by simp
      from same have "\<And>url. fetch_with_timer net' url i = fetch_with_timer net url i"
        by (simp add: fetch_with_timer_def)
      then have "queryNode (fetch_with_timer net') (nodes ! i) params i
                   = queryNode (fetch_with_timer net) (nodes ! i) params i"
        by (rule queryNode_fetch_cong)
      then show "rs' ! i = ?rs ! i"
        unfolding rs rs' by (simp only: nth [OF i])
    qed
    from a b show ?thesis by blast
  qed
  from p1 p2 p3 p4 show ?thesis
    by blast
qed

theorem queryAllNodes_never_fails_witness:
  "\<exists>rs. fst (queryAllNodes
       [\<lparr>id' = ''node-0'', name = ''A'', tapEndpoint = ''https://a.org/tap/''\<rparr>,
        \<lparr>id' = ''node-1'', name = ''B'', tapEndpoint = ''https://b.org/tap/''\<rparr>,
        \<lparr>id' = ''node-2'', name = ''C'', tapEndpoint = ''https://c.org/tap/''\<rparr>]
       \<lparr>wavelengthMin = Whole False 4000, wavelengthMax = Whole False 5000\<rparr>
       (\<lambda>a h (count::nat). (h, Suc count, None))
       (\<lambda>url i. if i = 0 then Responds \<lparr>http_status = 200, statusText = ''OK'',
                        headers = [(''VAMDC-COUNT-SPECIES'', ''12'')], body = []\<rparr>
                  else if i = 1 then Silent else Fails NonError)
       [1, 2, 0] 0) = Some (Fulfilled rs)
      \<and> length rs = 3 \<and> status (rs ! 1) = Timeout"
proof -
  let ?nodes = "[\<lparr>id' = ''node-0'', name = ''A'', tapEndpoint = ''https://a.org/tap/''\<rparr>,
        \<lparr>id' = ''node-1'', name = ''B'', tapEndpoint = ''https://b.org/tap/''\<rparr>,
        \<lparr>id' = ''node-2'', name = ''C'', tapEndpoint = ''https://c.org/tap/''\<rparr>]"
  let ?net = "\<lambda>(url::string) (i::nat). if i = 0 then Responds \<lparr>http_status = 200, statusText = ''OK'',
                        headers = [(''VAMDC-COUNT-SPECIES'', ''12'')], body = []\<rparr>
                  else if i = 1 then Silent else Fails NonError"
  let ?params = "\<lparr>wavelengthMin = Whole False 4000, wavelengthMax = Whole False 5000\<rparr>"
  let ?sink = "\<lambda>(a::ref) (h::heap) (count::nat). (h, Suc count, None :: js_value option)"
  have d: "distinct [1, 2, 0 :: nat]" by simp
  have s: "set [1, 2, 0 :: nat] = {0..<length ?nodes}" by auto
  have returns: "\<forall>a h s. snd (snd (?sink a h s)) = None"
    by simp
  have unchanged: "\<forall>a h s. fst (?sink a h s) = h"
    by simp
  have q: "queryNode (fetch_with_timer ?net) (?nodes ! 1) ?params 1
             = Inr \<lparr>nodeId = ''node-1'', nodeName = ''B'', status = Timeout,
                 numSpecies = None, numStates = None, numTransitions = None,
                 downloadUrl = None, error = Some ''Request timeout''\<rparr>"
    by (simp add: queryNode_def queryNode_try_def queryNode_catch_def fetch_with_timer_def
          abort_error_def Let_def)
  from queryAllNodes_never_fails [OF returns d s, of ?params ?net 0]
  obtain rs where rs: "fst (queryAllNodes ?nodes ?params ?sink ?net [1, 2, 0] 0) = Some (Fulfilled rs)"
      "length rs = length ?nodes"
      "(\<forall>a h s. fst (?sink a h s) = h) \<longrightarrow>
         (\<forall>i<length ?nodes. queryNode (fetch_with_timer ?net) (?nodes ! i) ?params i = Inr (rs ! i)
                 \<and> status (rs ! i) \<in> {Success, Error, Timeout})"
    by blast
  from rs(3) unchanged
  have all: "\<forall>i<length ?nodes. queryNode (fetch_with_timer ?net) (?nodes ! i) ?params i = Inr (rs ! i)
                 \<and> status (rs ! i) \<in> {Success, Error, Timeout}"
    by (rule mp)
  have "1 < length ?nodes" by simp
  with all have "queryNode (fetch_with_timer ?net) (?nodes ! 1) ?params 1 = Inr (rs ! 1)"
    by blast
  with q have "rs ! 1 = \<lparr>nodeId = ''node-1'', nodeName = ''B'', status = Timeout,
                 numSpecies = None, numStates = None, numTransitions = None,
                 downloadUrl = None, error = Some ''Request timeout''\<rparr>"
    by (simp only: sum.inject)
  then have "status (rs ! 1) = Timeout"
    by (simp only: NodeResponse.simps)
  with rs(1,2) show ?thesis by simp
qed

end
